theory Spec2Isabelle
  imports Complex_Main
begin

section \<open>JavaScript values used by the route handlers\<close>

text \<open>
  A parsed JSON document. An object is an association list; a property read takes the
  first binding of the key. The value \<open>undefined\<close>, which JSON cannot carry but which
  destructuring a missing property produces, is \<open>None\<close> of type \<open>jsval\<close>.
\<close>

datatype json =
    JNull
  | JBool bool
  | JNum rat
  | JStr string
  | JArr "json list"
  | JObj "(string \<times> json) list"

type_synonym jsval = "json option"

text \<open>The result of an awaited call: it either throws (rejects) or returns a value.\<close>

datatype 'a outcome = Throws | Returns 'a

text \<open>JavaScript truthiness, as used by \<open>!x\<close>, \<open>x || y\<close> and \<open>x ? a : b\<close>.\<close>

fun truthy :: "jsval \<Rightarrow> bool" where
  "truthy None = False"
| "truthy (Some JNull) = False"
| "truthy (Some (JBool b)) = b"
| "truthy (Some (JNum n)) = (n \<noteq> 0)"
| "truthy (Some (JStr s)) = (s \<noteq> [])"
| "truthy (Some (JArr xs)) = True"
| "truthy (Some (JObj fs)) = True"

text \<open>
  Reading a property, as the destructuring \<open>const { k } = v\<close> and the access \<open>v.k\<close> do
  for the property names the handlers use: only an object has them.
\<close>

fun get_prop :: "json \<Rightarrow> string \<Rightarrow> jsval" where
  "get_prop (JObj fs) k = map_of fs k"
| "get_prop v k = None"

text \<open>\<open>x || y\<close>\<close>

definition js_or :: "jsval \<Rightarrow> jsval \<Rightarrow> jsval" where
  "js_or x y = (if truthy x then x else y)"

text \<open>\<open>x ?? y\<close>: only \<open>undefined\<close> and \<open>null\<close> give way to the default.\<close>

fun nullish :: "jsval \<Rightarrow> json \<Rightarrow> json" where
  "nullish None d = d"
| "nullish (Some JNull) d = d"
| "nullish (Some v) d = v"

subsection \<open>Numbers\<close>

text \<open>
  A JavaScript number is an IEEE 754 double: a finite value (kept as the rational it
  denotes), an infinity or NaN. The two zeros are identified; their difference shows
  only in the sign of an infinity, and both infinities are written \<open>null\<close> in JSON.
\<close>

datatype jsnum = Fin rat | PosInf | NegInf | NaN

text \<open>
  Rounding a rational to the nearest double, ties to even: the exponent \<open>e\<close> is chosen so
  that the value scaled by \<open>2^-e\<close> has 53 bits, but not below the subnormal exponent
  \<open>-1074\<close>; the scaled value is rounded to an integer; a result of \<open>2^1024\<close> or more is
  an infinity.
\<close>

fun bit_length :: "nat \<Rightarrow> nat" where
  "bit_length n = (if n = 0 then 0 else Suc (bit_length (n div 2)))"

declare bit_length.simps [simp del]

definition round_half_even :: "rat \<Rightarrow> int" where
  "round_half_even y =
     (let f = \<lfloor>y\<rfloor>; d = y - of_int f
      in if d < 1 / 2 then f else if 1 / 2 < d then f + 1 else if even f then f else f + 1)"

definition exponent :: "rat \<Rightarrow> int" where
  "exponent x =
     max (- 1074)
       ((if 1 \<le> x then int (bit_length (nat \<lfloor>x\<rfloor>)) - 1
         else - int (bit_length (nat (\<lceil>1 / x\<rceil> - 1)))) - 52)"

definition scale2 :: "rat \<Rightarrow> int \<Rightarrow> rat" where
  "scale2 x e = (if 0 \<le> e then x * 2 ^ nat e else x / 2 ^ nat (- e))"

definition round_pos :: "rat \<Rightarrow> jsnum" where
  "round_pos x =
     (let e = exponent x;
          v = scale2 (of_int (round_half_even (scale2 x (- e)))) e
      in if 2 ^ 1024 \<le> v then PosInf else Fin v)"

fun js_neg :: "jsnum \<Rightarrow> jsnum" where
  "js_neg (Fin a) = Fin (- a)"
| "js_neg PosInf = NegInf"
| "js_neg NegInf = PosInf"
| "js_neg NaN = NaN"

definition to_double :: "rat \<Rightarrow> jsnum" where
  "to_double x =
     (if x = 0 then Fin 0 else if 0 < x then round_pos x else js_neg (round_pos (- x)))"

text \<open>The arithmetic the handlers use: each finite result is rounded to a double.\<close>

fun js_sub :: "jsnum \<Rightarrow> jsnum \<Rightarrow> jsnum" where
  "js_sub (Fin a) (Fin b) = to_double (a - b)"
| "js_sub NaN y = NaN"
| "js_sub x NaN = NaN"
| "js_sub PosInf PosInf = NaN"
| "js_sub NegInf NegInf = NaN"
| "js_sub PosInf y = PosInf"
| "js_sub NegInf y = NegInf"
| "js_sub (Fin a) PosInf = NegInf"
| "js_sub (Fin a) NegInf = PosInf"

definition inf_of_sign :: "bool \<Rightarrow> jsnum" where
  "inf_of_sign positive = (if positive then PosInf else NegInf)"

fun js_mul :: "jsnum \<Rightarrow> jsnum \<Rightarrow> jsnum" where
  "js_mul (Fin a) (Fin b) = to_double (a * b)"
| "js_mul NaN y = NaN"
| "js_mul x NaN = NaN"
| "js_mul PosInf (Fin b) = (if b = 0 then NaN else inf_of_sign (0 < b))"
| "js_mul NegInf (Fin b) = (if b = 0 then NaN else inf_of_sign (b < 0))"
| "js_mul (Fin a) PosInf = (if a = 0 then NaN else inf_of_sign (0 < a))"
| "js_mul (Fin a) NegInf = (if a = 0 then NaN else inf_of_sign (a < 0))"
| "js_mul PosInf PosInf = PosInf"
| "js_mul NegInf NegInf = PosInf"
| "js_mul PosInf NegInf = NegInf"
| "js_mul NegInf PosInf = NegInf"

fun js_div :: "jsnum \<Rightarrow> jsnum \<Rightarrow> jsnum" where
  "js_div (Fin a) (Fin b) =
     (if b = 0 then (if a = 0 then NaN else inf_of_sign (0 < a)) else to_double (a / b))"
| "js_div NaN y = NaN"
| "js_div x NaN = NaN"
| "js_div (Fin a) y = Fin 0"
| "js_div PosInf (Fin b) = inf_of_sign (0 \<le> b)"
| "js_div NegInf (Fin b) = inf_of_sign (b < 0)"
| "js_div x y = NaN"

text \<open>\<open>Math.ceil\<close>\<close>

fun js_ceil :: "jsnum \<Rightarrow> jsnum" where
  "js_ceil (Fin a) = Fin (of_int \<lceil>a\<rceil>)"
| "js_ceil x = x"

text \<open>A row count as a number.\<close>

definition js_of_nat :: "nat \<Rightarrow> jsnum" where
  "js_of_nat n = to_double (of_nat n)"

text \<open>\<open>JSON.stringify\<close> of a number: the non-finite ones are written as \<open>null\<close>.\<close>

fun json_of_num :: "jsnum \<Rightarrow> json" where
  "json_of_num (Fin a) = JNum a"
| "json_of_num x = JNull"

subsection \<open>\<open>parseInt\<close> without a radix\<close>

text \<open>
  A string is the UTF-8 encoding of the JavaScript string. \<open>parseInt\<close> skips leading
  white space and line terminators (TAB, LF, VT, FF, CR, SP, U+00A0, U+1680, U+2000 to
  U+200A, U+2028, U+2029, U+202F, U+205F, U+3000, U+FEFF), reads a sign, lets a \<open>0x\<close>
  prefix select radix 16, and takes the longest run of digits. No digit gives NaN;
  otherwise the result is the double nearest to the integer the digits denote.
\<close>

definition is_ws1 :: "char \<Rightarrow> bool" where
  "is_ws1 a = (a \<in> {CHR 0x09, CHR 0x0A, CHR 0x0B, CHR 0x0C, CHR 0x0D, CHR 0x20})"

definition is_ws2 :: "char \<Rightarrow> char \<Rightarrow> bool" where
  "is_ws2 a b = (a = CHR 0xC2 \<and> b = CHR 0xA0)"

definition is_ws3 :: "char \<Rightarrow> char \<Rightarrow> char \<Rightarrow> bool" where
  "is_ws3 a b c =
     (a = CHR 0xE1 \<and> b = CHR 0x9A \<and> c = CHR 0x80 \<or>
      a = CHR 0xE2 \<and> b = CHR 0x80 \<and>
        (0x80 \<le> (of_char c :: nat) \<and> (of_char c :: nat) \<le> 0x8A \<or>
         c \<in> {CHR 0xA8, CHR 0xA9, CHR 0xAF}) \<or>
      a = CHR 0xE2 \<and> b = CHR 0x81 \<and> c = CHR 0x9F \<or>
      a = CHR 0xE3 \<and> b = CHR 0x80 \<and> c = CHR 0x80 \<or>
      a = CHR 0xEF \<and> b = CHR 0xBB \<and> c = CHR 0xBF)"

fun strip_ws :: "string \<Rightarrow> string" where
  "strip_ws (a # b # c # s) =
     (if is_ws1 a then strip_ws (b # c # s)
      else if is_ws2 a b then strip_ws (c # s)
      else if is_ws3 a b c then strip_ws s
      else a # b # c # s)"
| "strip_ws [a, b] = (if is_ws1 a then strip_ws [b] else if is_ws2 a b then [] else [a, b])"
| "strip_ws [a] = (if is_ws1 a then [] else [a])"
| "strip_ws [] = []"

definition digit_of :: "char \<Rightarrow> nat option" where
  "digit_of c =
     (let n = of_char c :: nat in
      if 48 \<le> n \<and> n \<le> 57 then Some (n - 48)
      else if 97 \<le> n \<and> n \<le> 102 then Some (n - 87)
      else if 65 \<le> n \<and> n \<le> 70 then Some (n - 55)
      else None)"

definition is_digit :: "nat \<Rightarrow> char \<Rightarrow> bool" where
  "is_digit radix c = (case digit_of c of None \<Rightarrow> False | Some d \<Rightarrow> d < radix)"

definition digits_value :: "nat \<Rightarrow> string \<Rightarrow> nat" where
  "digits_value radix ds =
     foldl (\<lambda>acc c. acc * radix + (case digit_of c of None \<Rightarrow> 0 | Some d \<Rightarrow> d)) 0 ds"

definition strip_sign :: "string \<Rightarrow> bool \<times> string" where
  "strip_sign s =
     (case s of
        c # r \<Rightarrow> if c = CHR ''-'' then (True, r) else if c = CHR ''+'' then (False, r) else (False, s)
      | [] \<Rightarrow> (False, s))"

definition strip_radix :: "string \<Rightarrow> nat \<times> string" where
  "strip_radix s =
     (if take 2 s = ''0x'' \<or> take 2 s = ''0X'' then (16, drop 2 s) else (10, s))"

definition parseInt :: "string \<Rightarrow> jsnum" where
  "parseInt s =
     (let (negative, s2) = strip_sign (strip_ws s);
          (radix, s3) = strip_radix s2;
          ds = takeWhile (is_digit radix) s3
      in if ds = [] then NaN
         else to_double (of_int ((if negative then - 1 else 1) * int (digits_value radix ds))))"

section \<open>The query-history route: sessions, the database client, responses\<close>

text \<open>
  The session that \<open>getServerSession\<close> resolves to: \<open>null\<close> is \<open>None\<close>, and a session
  may lack its \<open>user\<close>. \<open>session.user.id\<close> and \<open>session.user.role\<close> are strings.
\<close>

record user =
  user_id :: string
  role :: string

record session =
  user :: "user option"

text \<open>\<open>session?.user\<close>\<close>

definition session_user :: "session option \<Rightarrow> user option" where
  "session_user s = (case s of None \<Rightarrow> None | Some ss \<Rightarrow> user ss)"

text \<open>
  The columns a request may set, for a query-history row and for its visualization. The
  same shape carries what a request supplies (\<open>jsval\<close>, where a missing property is
  \<open>undefined\<close>) and what a row stores (\<open>json\<close>).
\<close>

record 'a queryFields =
  userQuery :: 'a
  sqlQuery :: 'a
  relatedQueries :: 'a
  results :: 'a
  executionTime :: 'a
  successful :: 'a
  errorMessage :: 'a

record 'a chartFields =
  chartType :: 'a
  chartOptions :: 'a
  title :: 'a
  description :: 'a

record visualization =
  viz_id :: nat
  queryId :: json
  chart :: "json chartFields"

record queryHistory =
  qh_id :: json
  userId :: string
  cols :: "json queryFields"
  createdAt :: nat
  visualization :: "visualization option"

text \<open>
  The Prisma client and its schema are outside the repository. The database is modelled
  as the table of query-history rows, each with its included visualization, a counter
  that mints ids (as numbers) and a clock that stamps \<open>createdAt\<close>. In which order it
  returns rows of equal \<open>createdAt\<close> is the database's own choice, held as \<open>tie\<close>.
\<close>

record database =
  rows :: "queryHistory list"
  next_id :: nat
  clock :: nat
  tie :: "queryHistory \<Rightarrow> nat"

text \<open>The calls the handlers make on the client, with their arguments.\<close>

datatype prisma_call =
    FindMany string "bool option" jsnum jsnum
  | Count string "bool option"
  | Create string "jsval queryFields" "jsval chartFields option"
  | FindUnique json
  | Update json "json queryFields"
  | VisualizationUpdate nat "json chartFields"
  | VisualizationCreate json "jsval chartFields"
  | Delete json

text \<open>
  Any call may throw (a schema validation error, a lost connection). Which calls do is a
  parameter of every handler: \<open>fails n c\<close> says that call \<open>c\<close>, made as the \<open>n\<close>-th
  call of the request (counting from 0), throws.
\<close>

type_synonym failures = "nat \<Rightarrow> prisma_call \<Rightarrow> bool"

definition throws :: "failures \<Rightarrow> prisma_call list \<Rightarrow> prisma_call \<Rightarrow> bool" where
  "throws fails trace c = fails (length trace) c"

text \<open>A column left \<open>undefined\<close> in a create is stored as \<open>null\<close>.\<close>

definition stored :: "jsval \<Rightarrow> json" where
  "stored v = (case v of None \<Rightarrow> JNull | Some j \<Rightarrow> j)"

definition stored_query :: "jsval queryFields \<Rightarrow> json queryFields" where
  "stored_query d =
     \<lparr>userQuery = stored (userQuery d), sqlQuery = stored (sqlQuery d),
      relatedQueries = stored (relatedQueries d), results = stored (results d),
      executionTime = stored (executionTime d), successful = stored (successful d),
      errorMessage = stored (errorMessage d)\<rparr>"

definition stored_chart :: "jsval chartFields \<Rightarrow> json chartFields" where
  "stored_chart d =
     \<lparr>chartType = stored (chartType d), chartOptions = stored (chartOptions d),
      title = stored (title d), description = stored (description d)\<rparr>"

subsection \<open>Reads\<close>

definition matches :: "string \<Rightarrow> bool option \<Rightarrow> queryHistory \<Rightarrow> bool" where
  "matches uid succ r =
     (userId r = uid \<and>
      (case succ of None \<Rightarrow> True | Some b \<Rightarrow> successful (cols r) = JBool b))"

text \<open>
  \<open>orderBy: { createdAt: 'desc' }\<close> over the rows the filter selects: a stable sort by
  \<open>createdAt\<close> of the rows arranged by the database's \<open>tie\<close>, reversed.
\<close>

definition selected :: "database \<Rightarrow> string \<Rightarrow> bool option \<Rightarrow> queryHistory list" where
  "selected db uid succ =
     rev (sort_key createdAt (sort_key (tie db) (filter (matches uid succ) (rows db))))"

text \<open>
  \<open>skip\<close> and \<open>take\<close> must be integers, and \<open>skip\<close> not negative, or the client throws.
  A negative \<open>take\<close> counts from the end of the ordered rows.
\<close>

definition as_int :: "jsnum \<Rightarrow> int option" where
  "as_int x = (case x of Fin a \<Rightarrow> if of_int \<lfloor>a\<rfloor> = a then Some \<lfloor>a\<rfloor> else None | _ \<Rightarrow> None)"

definition window :: "int \<Rightarrow> int \<Rightarrow> 'a list \<Rightarrow> 'a list" where
  "window s t xs =
     (if 0 \<le> t then take (nat t) (drop (nat s) xs)
      else rev (take (nat (- t)) (drop (nat s) (rev xs))))"

definition findMany ::
  "failures \<Rightarrow> database \<Rightarrow> prisma_call list \<Rightarrow> string \<Rightarrow> bool option \<Rightarrow> jsnum \<Rightarrow> jsnum
     \<Rightarrow> queryHistory list outcome \<times> prisma_call list" where
  "findMany fails db trace uid succ skip tk =
     (let c = FindMany uid succ skip tk in
      (if throws fails trace c then Throws
       else (case (as_int skip, as_int tk) of
               (Some s, Some t) \<Rightarrow>
                 if s < 0 then Throws else Returns (window s t (selected db uid succ))
             | _ \<Rightarrow> Throws),
       trace @ [c]))"

definition count ::
  "failures \<Rightarrow> database \<Rightarrow> prisma_call list \<Rightarrow> string \<Rightarrow> bool option
     \<Rightarrow> nat outcome \<times> prisma_call list" where
  "count fails db trace uid succ =
     (let c = Count uid succ in
      (if throws fails trace c then Throws else Returns (length (selected db uid succ)),
       trace @ [c]))"

definition findUnique ::
  "failures \<Rightarrow> database \<Rightarrow> prisma_call list \<Rightarrow> json
     \<Rightarrow> queryHistory option outcome \<times> prisma_call list" where
  "findUnique fails db trace i =
     (let c = FindUnique i in
      (if throws fails trace c then Throws else Returns (find (\<lambda>r. qh_id r = i) (rows db)),
       trace @ [c]))"

subsection \<open>Writes\<close>

definition new_row ::
  "database \<Rightarrow> string \<Rightarrow> jsval queryFields \<Rightarrow> jsval chartFields option \<Rightarrow> queryHistory" where
  "new_row db uid d v =
     (let i = JNum (of_nat (next_id db)) in
      \<lparr>qh_id = i, userId = uid, cols = stored_query d, createdAt = clock db,
       visualization =
         (case v of None \<Rightarrow> None
          | Some cf \<Rightarrow> Some \<lparr>viz_id = next_id db, queryId = i, chart = stored_chart cf\<rparr>)\<rparr>)"

definition create ::
  "failures \<Rightarrow> database \<Rightarrow> prisma_call list \<Rightarrow> string \<Rightarrow> jsval queryFields
     \<Rightarrow> jsval chartFields option \<Rightarrow> (queryHistory \<times> database) outcome \<times> prisma_call list" where
  "create fails db trace uid d v =
     (let c = Create uid d v in
      (if throws fails trace c then Throws
       else (let r = new_row db uid d v in
             Returns (r, db\<lparr>rows := rows db @ [r], next_id := Suc (next_id db),
                            clock := Suc (clock db)\<rparr>)),
       trace @ [c]))"

definition map_row :: "json \<Rightarrow> (queryHistory \<Rightarrow> queryHistory) \<Rightarrow> database \<Rightarrow> database" where
  "map_row i f db = db\<lparr>rows := map (\<lambda>r. if qh_id r = i then f r else r) (rows db)\<rparr>"

definition update ::
  "failures \<Rightarrow> database \<Rightarrow> prisma_call list \<Rightarrow> json \<Rightarrow> json queryFields
     \<Rightarrow> database outcome \<times> prisma_call list" where
  "update fails db trace i d =
     (let c = Update i d in
      (if throws fails trace c \<or> find (\<lambda>r. qh_id r = i) (rows db) = None then Throws
       else Returns (map_row i (\<lambda>r. r\<lparr>cols := d\<rparr>) db),
       trace @ [c]))"

definition viz_update ::
  "failures \<Rightarrow> database \<Rightarrow> prisma_call list \<Rightarrow> nat \<Rightarrow> json chartFields
     \<Rightarrow> database outcome \<times> prisma_call list" where
  "viz_update fails db trace vid d =
     (let c = VisualizationUpdate vid d in
      (if throws fails trace c then Throws
       else Returns (db\<lparr>rows := map (\<lambda>r. r\<lparr>visualization :=
                       map_option (\<lambda>v. if viz_id v = vid then v\<lparr>chart := d\<rparr> else v)
                         (visualization r)\<rparr>) (rows db)\<rparr>),
       trace @ [c]))"

definition viz_create ::
  "failures \<Rightarrow> database \<Rightarrow> prisma_call list \<Rightarrow> json \<Rightarrow> jsval chartFields
     \<Rightarrow> database outcome \<times> prisma_call list" where
  "viz_create fails db trace i d =
     (let c = VisualizationCreate i d in
      (if throws fails trace c then Throws
       else Returns ((map_row i (\<lambda>r. r\<lparr>visualization :=
                        Some \<lparr>viz_id = next_id db, queryId = i, chart = stored_chart d\<rparr>\<rparr>) db)
                     \<lparr>next_id := Suc (next_id db)\<rparr>),
       trace @ [c]))"

definition delete ::
  "failures \<Rightarrow> database \<Rightarrow> prisma_call list \<Rightarrow> json \<Rightarrow> database outcome \<times> prisma_call list" where
  "delete fails db trace i =
     (let c = Delete i in
      (if throws fails trace c \<or> find (\<lambda>r. qh_id r = i) (rows db) = None then Throws
       else Returns (db\<lparr>rows := filter (\<lambda>r. qh_id r \<noteq> i) (rows db)\<rparr>),
       trace @ [c]))"

subsection \<open>Responses\<close>

record pagination =
  total :: json
  page :: json
  limit :: json
  totalPages :: json

datatype body =
    ErrorBody string
  | QueriesBody "queryHistory list" pagination
  | QueryBody "queryHistory option"
  | SuccessBody string

record response =
  status :: nat
  body :: body

text \<open>\<open>NextResponse.json({ error: msg }, { status: code })\<close>\<close>

definition error_response :: "nat \<Rightarrow> string \<Rightarrow> response" where
  "error_response code msg = \<lparr>status = code, body = ErrorBody msg\<rparr>"

type_synonym result = "response \<times> database \<times> prisma_call list"

section \<open>The handlers of \<open>src/app/api/query-history/route.ts\<close>\<close>

text \<open>
  Each handler takes what its awaited inputs resolve to (the session, the parsed request
  body) and the database, and returns the response, the database afterwards and the
  calls it made on the client, in order.
\<close>

text \<open>\<open>searchParams.get(k) ? \<dots> : \<dots>\<close>: a missing and an empty parameter are both falsy.\<close>

definition param :: "(string \<times> string) list \<Rightarrow> string \<Rightarrow> string option" where
  "param searchParams k =
     (case map_of searchParams k of None \<Rightarrow> None | Some s \<Rightarrow> if s = [] then None else Some s)"

text \<open>
  The values GET computes from the query string: \<open>limit\<close>, \<open>page\<close>, \<open>successful\<close> and the
  \<open>userId\<close> of the filter, \<open>userId || session.user.id\<close>.
\<close>

definition limit_of :: "(string \<times> string) list \<Rightarrow> jsnum" where
  "limit_of searchParams =
     (case param searchParams ''limit'' of Some s \<Rightarrow> parseInt s | None \<Rightarrow> Fin 10)"

definition page_of :: "(string \<times> string) list \<Rightarrow> jsnum" where
  "page_of searchParams =
     (case param searchParams ''page'' of Some s \<Rightarrow> parseInt s | None \<Rightarrow> Fin 1)"

definition successful_of :: "(string \<times> string) list \<Rightarrow> bool option" where
  "successful_of searchParams = map_option (\<lambda>s. s = ''true'') (param searchParams ''successful'')"

definition filter_userId :: "user \<Rightarrow> (string \<times> string) list \<Rightarrow> string" where
  "filter_userId u searchParams =
     (case param searchParams ''userId'' of Some s \<Rightarrow> s | None \<Rightarrow> user_id u)"

definition GET ::
  "failures \<Rightarrow> session option outcome \<Rightarrow> (string \<times> string) list \<Rightarrow> database \<Rightarrow> result" where
  "GET fails auth searchParams db =
     (case auth of
        Throws \<Rightarrow> (error_response 500 ''error fetching query history'', db, [])
      | Returns sess \<Rightarrow>
     (case session_user sess of
        None \<Rightarrow> (error_response 401 ''unauthorized'', db, [])
      | Some u \<Rightarrow>
        (let userId = map_of searchParams ''userId'';
             limit = limit_of searchParams;
             page = page_of searchParams;
             skip = js_mul (js_sub page (Fin 1)) limit;
             successful = successful_of searchParams
         in if role u \<noteq> ''ADMIN'' \<and> userId \<noteq> Some (user_id u) then
              (error_response 403 ''unauthorized: can only access your own query history'', db, [])
            else
              (let uid = filter_userId u searchParams;
                   (queries, trace1) = findMany fails db [] uid successful skip limit;
                   (total, trace2) = count fails db trace1 uid successful
               in (case (queries, total) of
                     (Returns qs, Returns n) \<Rightarrow>
                       (\<lparr>status = 200,
                         body = QueriesBody qs
                           \<lparr>total = json_of_num (js_of_nat n), page = json_of_num page,
                            limit = json_of_num limit,
                            totalPages = json_of_num (js_ceil (js_div (js_of_nat n) limit))\<rparr>\<rparr>,
                        db, trace2)
                   | _ \<Rightarrow> (error_response 500 ''error fetching query history'', db, trace2))))))"

text \<open>
  \<open>visualization ? { create: { chartType: visualization.chartType, \<dots> } } : undefined\<close>
\<close>

definition chart_of :: "jsval \<Rightarrow> jsval chartFields option" where
  "chart_of v =
     (case v of
        None \<Rightarrow> None
      | Some j \<Rightarrow>
          if truthy v then
            Some \<lparr>chartType = get_prop j ''chartType'', chartOptions = get_prop j ''chartOptions'',
                  title = get_prop j ''title'', description = get_prop j ''description''\<rparr>
          else None)"

definition POST ::
  "failures \<Rightarrow> session option outcome \<Rightarrow> json outcome \<Rightarrow> database \<Rightarrow> result" where
  "POST fails auth payload db =
     (case auth of
        Throws \<Rightarrow> (error_response 500 ''error saving query history'', db, [])
      | Returns sess \<Rightarrow>
     (case session_user sess of
        None \<Rightarrow> (error_response 401 ''unauthorized'', db, [])
      | Some u \<Rightarrow>
     (case payload of
        Throws \<Rightarrow> (error_response 500 ''error saving query history'', db, [])
      | Returns b \<Rightarrow>
          if b = JNull then (error_response 500 ''error saving query history'', db, [])
          else if \<not> truthy (get_prop b ''userQuery'') \<or> \<not> truthy (get_prop b ''sqlQuery'') then
            (error_response 400 ''userQuery and sqlQuery are required'', db, [])
          else
            (case create fails db [] (user_id u)
                    \<lparr>userQuery = get_prop b ''userQuery'', sqlQuery = get_prop b ''sqlQuery'',
                     relatedQueries = get_prop b ''relatedQueries'',
                     results = get_prop b ''results'',
                     executionTime = get_prop b ''executionTime'',
                     successful = Some (nullish (get_prop b ''successful'') (JBool True)),
                     errorMessage = get_prop b ''errorMessage''\<rparr>
                    (chart_of (get_prop b ''visualization'')) of
               (Throws, trace1) \<Rightarrow>
                 (error_response 500 ''error saving query history'', db, trace1)
             | (Returns (r, db1), trace1) \<Rightarrow>
                 (\<lparr>status = 201, body = QueryBody (Some r)\<rparr>, db1, trace1)))))"

text \<open>\<open>x || existing\<close>, where \<open>existing\<close> is a stored column.\<close>

definition or_existing :: "jsval \<Rightarrow> json \<Rightarrow> json" where
  "or_existing x e = (case x of None \<Rightarrow> e | Some v \<Rightarrow> if truthy x then v else e)"

text \<open>
  The body of \<open>prisma.$transaction\<close> in PUT: the row's update, then the update or the
  creation of its visualization when the request carries one.
\<close>

definition put_transaction ::
  "failures \<Rightarrow> database \<Rightarrow> prisma_call list \<Rightarrow> json \<Rightarrow> json \<Rightarrow> queryHistory
     \<Rightarrow> database outcome \<times> prisma_call list" where
  "put_transaction fails db trace i b existingQuery =
     (let d = \<lparr>userQuery = or_existing (get_prop b ''userQuery'') (userQuery (cols existingQuery)),
               sqlQuery = or_existing (get_prop b ''sqlQuery'') (sqlQuery (cols existingQuery)),
               relatedQueries =
                 or_existing (get_prop b ''relatedQueries'') (relatedQueries (cols existingQuery)),
               results = or_existing (get_prop b ''results'') (results (cols existingQuery)),
               executionTime =
                 or_existing (get_prop b ''executionTime'') (executionTime (cols existingQuery)),
               successful =
                 (case get_prop b ''successful'' of
                    None \<Rightarrow> successful (cols existingQuery) | Some v \<Rightarrow> v),
               errorMessage =
                 or_existing (get_prop b ''errorMessage'') (errorMessage (cols existingQuery))\<rparr>
      in (case update fails db trace i d of
            (Throws, trace1) \<Rightarrow> (Throws, trace1)
          | (Returns db1, trace1) \<Rightarrow>
              (case get_prop b ''visualization'' of
                 None \<Rightarrow> (Returns db1, trace1)
               | Some v \<Rightarrow>
                   if \<not> truthy (Some v) then (Returns db1, trace1)
                   else
                     (case visualization existingQuery of
                        Some ev \<Rightarrow>
                          viz_update fails db1 trace1 (viz_id ev)
                            \<lparr>chartType = or_existing (get_prop v ''chartType'') (chartType (chart ev)),
                             chartOptions =
                               or_existing (get_prop v ''chartOptions'') (chartOptions (chart ev)),
                             title = or_existing (get_prop v ''title'') (title (chart ev)),
                             description =
                               or_existing (get_prop v ''description'') (description (chart ev))\<rparr>
                      | None \<Rightarrow>
                          viz_create fails db1 trace1 i
                            \<lparr>chartType = get_prop v ''chartType'',
                             chartOptions = get_prop v ''chartOptions'',
                             title = get_prop v ''title'',
                             description = get_prop v ''description''\<rparr>))))"

definition PUT ::
  "failures \<Rightarrow> session option outcome \<Rightarrow> json outcome \<Rightarrow> database \<Rightarrow> result" where
  "PUT fails auth payload db =
     (case auth of
        Throws \<Rightarrow> (error_response 500 ''error updating query history'', db, [])
      | Returns sess \<Rightarrow>
     (case session_user sess of
        None \<Rightarrow> (error_response 401 ''unauthorized'', db, [])
      | Some u \<Rightarrow>
     (case payload of
        Throws \<Rightarrow> (error_response 500 ''error updating query history'', db, [])
      | Returns b \<Rightarrow>
          if b = JNull then (error_response 500 ''error updating query history'', db, [])
          else
     (case get_prop b ''id'' of
        None \<Rightarrow> (error_response 400 ''query history id is required'', db, [])
      | Some i \<Rightarrow>
          if \<not> truthy (Some i) then
            (error_response 400 ''query history id is required'', db, [])
          else
            (case findUnique fails db [] i of
               (Throws, trace1) \<Rightarrow>
                 (error_response 500 ''error updating query history'', db, trace1)
             | (Returns None, trace1) \<Rightarrow>
                 (error_response 404 ''query history not found'', db, trace1)
             | (Returns (Some existingQuery), trace1) \<Rightarrow>
                 if role u \<noteq> ''ADMIN'' \<and> userId existingQuery \<noteq> user_id u then
                   (error_response 403 ''unauthorized: can only update your own query history'',
                    db, trace1)
                 else
                   (case put_transaction fails db trace1 i b existingQuery of
                      (Throws, trace2) \<Rightarrow>
                        (error_response 500 ''error updating query history'', db, trace2)
                    | (Returns db2, trace2) \<Rightarrow>
                        (case findUnique fails db2 trace2 i of
                           (Throws, trace3) \<Rightarrow>
                             (error_response 500 ''error updating query history'', db2, trace3)
                         | (Returns res, trace3) \<Rightarrow>
                             (\<lparr>status = 200, body = QueryBody res\<rparr>, db2, trace3))))))))"

definition DELETE ::
  "failures \<Rightarrow> session option outcome \<Rightarrow> json outcome \<Rightarrow> database \<Rightarrow> result" where
  "DELETE fails auth payload db =
     (case auth of
        Throws \<Rightarrow> (error_response 500 ''error deleting query history'', db, [])
      | Returns sess \<Rightarrow>
     (case session_user sess of
        None \<Rightarrow> (error_response 401 ''unauthorized'', db, [])
      | Some u \<Rightarrow>
     (case payload of
        Throws \<Rightarrow> (error_response 500 ''error deleting query history'', db, [])
      | Returns b \<Rightarrow>
          if b = JNull then (error_response 500 ''error deleting query history'', db, [])
          else
     (case get_prop b ''id'' of
        None \<Rightarrow> (error_response 400 ''query history id is required'', db, [])
      | Some i \<Rightarrow>
          if \<not> truthy (Some i) then
            (error_response 400 ''query history id is required'', db, [])
          else
            (case findUnique fails db [] i of
               (Throws, trace1) \<Rightarrow>
                 (error_response 500 ''error deleting query history'', db, trace1)
             | (Returns None, trace1) \<Rightarrow>
                 (error_response 404 ''query history not found'', db, trace1)
             | (Returns (Some existingQuery), trace1) \<Rightarrow>
                 if role u \<noteq> ''ADMIN'' \<and> userId existingQuery \<noteq> user_id u then
                   (error_response 403 ''unauthorized: can only delete your own query history'',
                    db, trace1)
                 else
                   (case delete fails db trace1 i of
                      (Throws, trace2) \<Rightarrow>
                        (error_response 500 ''error deleting query history'', db, trace2)
                    | (Returns db2, trace2) \<Rightarrow>
                        (\<lparr>status = 200, body = SuccessBody ''Query history deleted''\<rparr>,
                         db2, trace2)))))))"

section \<open>The enrollment capture flow: \<open>handleEnroll\<close> of \<open>VoiceEnrollment\<close>\<close>




















section \<open>The voice engine behind \<open>/api/auth/enroll\<close>\<close>

text \<open>
  The repository's sources under study hold the browser side of enrollment only; the
  engine that the spec describes (sections 3, 4 and 6) is not among them. Its embedding
  below follows the spec's text.
\<close>

subsection \<open>Data model\<close>

text \<open>
  Modelled from the spec: the AudioSample of section 3, which no source file declares.
\<close>

record audioSample =
  waveform :: "real list"
  sampleRate :: nat
  channelCount :: nat
  duration :: real

text \<open>
  Modelled from the spec: the Embedding of section 3, with the extractor version it is
  comparable under; no source file declares it.
\<close>

record embedding =
  extractorVersion :: nat
  coords :: "real list"

text \<open>
  Modelled from the spec: the VoiceTemplate of section 3, which no source file declares.
\<close>

record voiceTemplate =
  owner :: string
  templateExtractor :: nat
  aggregate :: embedding
  quality :: real
  created :: nat
  updated :: nat
  version :: nat
  active :: bool

text \<open>
  Modelled from the spec: the two decisions of section 4.4, not declared in the sources.
\<close>

datatype decision = Accept | Reject

text \<open>
  Modelled from the spec: the reason codes of sections 4, 6 and 7, not declared in the
  sources; \<open>Match\<close> and \<open>Mismatch\<close> are the reasons of a decision taken on the score.
\<close>

datatype reason =
    InsufficientSignal
  | UnsupportedFormat
  | EnrollmentIncomplete
  | InconsistentSamples
  | QualityBelowThreshold
  | ExtractionFailed
  | NoTemplate
  | LockedOut
  | VersionMismatch
  | Match
  | Mismatch

text \<open>
  Modelled from the spec: the VerificationAttempt audit record of section 3, which no
  source file declares.
\<close>

record verificationAttempt =
  attemptUser :: string
  attemptTime :: nat
  attemptScore :: "real option"
  attemptDecision :: decision
  attemptReason :: reason

text \<open>
  Modelled from the spec: the persisted state of section 6, absent from the sources: the
  template versions, the append-only attempt log and the per-user count of failed
  attempts.
\<close>

record world =
  templates :: "voiceTemplate list"
  audit :: "verificationAttempt list"
  failedAttempts :: "string \<Rightarrow> nat"
  time :: nat

text \<open>
  Modelled from the spec: the pluggable parts of sections 4.1, 4.3 and 4.4, which the
  spec leaves to the implementer and the sources do not contain: the extractor
  (\<open>extract\<close>, here \<open>extract_sample\<close>), the similarity of two embeddings, the quality score of a set of samples and the check that
  a sample is well formed.
\<close>

record engine =
  extract_sample :: "audioSample \<Rightarrow> reason + embedding"
  similarity :: "embedding \<Rightarrow> embedding \<Rightarrow> real"
  qualityOf :: "embedding list \<Rightarrow> real"
  wellFormed :: "audioSample \<Rightarrow> bool"

text \<open>
  Modelled from the spec: the configuration named in sections 4.2 to 4.5 (the threshold
  \<open>\<tau>\<close>, \<open>maxFailedAttempts\<close>, \<open>minSuccessfulSamples\<close>, the bound on attempts, the
  consistency threshold and the minimum quality), for which the sources have no value.
\<close>

record policy =
  threshold :: real
  maxFailedAttempts :: nat
  minSuccessfulSamples :: nat
  maxAttempts :: nat
  consistencyThreshold :: real
  minQuality :: real

subsection \<open>MatchingEngine\<close>

text \<open>
  Modelled from the spec: \<open>decide\<close> of section 4.4, missing from the sources. The
  section gives the threshold rule (\<open>Accept\<close> iff \<open>score \<ge> \<tau>\<close>) and the tie rule (ties at
  exactly \<open>\<tau>\<close> resolve to \<open>Reject\<close>, fail closed), which disagree at \<open>score = \<tau>\<close> only.
  The tie rule is the one that speaks of that score, and section 7 has every ambiguous
  case fail closed: \<open>decide\<close> accepts above \<open>\<tau>\<close> and rejects at and below it.
\<close>

definition decide :: "real \<Rightarrow> policy \<Rightarrow> decision" where
  "decide s pol = (if threshold pol < s then Accept else Reject)"

text \<open>
  Modelled from the spec: \<open>score\<close> of section 4.4, missing from the sources: the
  similarity of the candidate to the template's aggregate embedding, failing with
  \<open>VersionMismatch\<close> across extractor versions.
\<close>

definition score :: "engine \<Rightarrow> embedding \<Rightarrow> voiceTemplate \<Rightarrow> reason + real" where
  "score eng e t =
     (if extractorVersion e \<noteq> templateExtractor t then Inl VersionMismatch
      else Inr (similarity eng e (aggregate t)))"

subsection \<open>TemplateStore\<close>

text \<open>
  Modelled from the spec: \<open>getActive\<close> and \<open>put\<close> of section 4.2, missing from the
  sources. \<open>put\<close> refuses a quality below the minimum; otherwise it appends a new active
  version and supersedes the user's active template of the same extractor version.
\<close>

definition getActive :: "string \<Rightarrow> voiceTemplate list \<Rightarrow> voiceTemplate option" where
  "getActive uid ts = find (\<lambda>t. owner t = uid \<and> active t) ts"


subsection \<open>EnrollmentOrchestrator\<close>









subsection \<open>VerificationOrchestrator\<close>

text \<open>
  Modelled from the spec: the per-attempt state machine
  \<open>Received \<rightarrow> Extracting \<rightarrow> Matching \<rightarrow> Decided \<rightarrow> Recorded\<close> of section 4.5, of which the
  sources contain nothing. A \<open>Matching\<close> state carries the extracted embedding, a
  \<open>Decided\<close> state the decision, its reason and the score when one was computed.
\<close>

datatype vstate =
    Received
  | Extracting
  | Matching embedding
  | Decided decision reason "real option"
  | Recorded

text \<open>
  Modelled from the spec: the input of Verify (section 6), which the sources do not
  declare: a claimed identity and one capture.
\<close>

record request =
  claimedUser :: string
  sample :: audioSample

text \<open>
  Modelled from the spec: the \<open>Matching \<rightarrow> Decided\<close> transition of section 4.5, not in
  the sources: no active template gives \<open>NoTemplate\<close>; a user at \<open>maxFailedAttempts\<close> is
  rejected as \<open>LockedOut\<close> with no score computed; otherwise the score is decided by the
  policy, and a version mismatch is rejected.
\<close>

definition matching :: "policy \<Rightarrow> engine \<Rightarrow> request \<Rightarrow> world \<Rightarrow> embedding \<Rightarrow> vstate" where
  "matching pol eng req w e =
     (case getActive (claimedUser req) (templates w) of
        None \<Rightarrow> Decided Reject NoTemplate None
      | Some t \<Rightarrow>
          if maxFailedAttempts pol \<le> failedAttempts w (claimedUser req) then
            Decided Reject LockedOut None
          else
            (case score eng e t of
               Inl r \<Rightarrow> Decided Reject r None
             | Inr s \<Rightarrow>
                 Decided (decide s pol) (if decide s pol = Accept then Match else Mismatch)
                   (Some s)))"

text \<open>
  Modelled from the spec: the \<open>Decided \<rightarrow> Recorded\<close> transition of section 4.5, not in
  the sources: one VerificationAttempt is appended; a reject increments the user's
  failed-attempt count and an accept resets it.
\<close>

definition attempt_of :: "request \<Rightarrow> world \<Rightarrow> decision \<Rightarrow> reason \<Rightarrow> real option \<Rightarrow> verificationAttempt" where
  "attempt_of req w d r s =
     \<lparr>attemptUser = claimedUser req, attemptTime = time w, attemptScore = s,
      attemptDecision = d, attemptReason = r\<rparr>"

text \<open>
  Modelled from the spec: the effect of \<open>Decided \<rightarrow> Recorded\<close> on the stored state (sections
  4.5 and 6), not in the sources.
\<close>

definition record_attempt :: "request \<Rightarrow> world \<Rightarrow> decision \<Rightarrow> reason \<Rightarrow> real option \<Rightarrow> world" where
  "record_attempt req w d r s =
     w\<lparr>audit := audit w @ [attempt_of req w d r s],
       failedAttempts := (failedAttempts w)
         (claimedUser req := (if d = Accept then 0 else Suc (failedAttempts w (claimedUser req)))),
       time := Suc (time w)\<rparr>"

text \<open>
  Modelled from the spec: one transition of the state machine of section 4.5, absent
  from the sources. \<open>Received\<close> moves on only for a well-formed sample and a claimed
  identity; \<open>Recorded\<close> is terminal.
\<close>

fun step :: "policy \<Rightarrow> engine \<Rightarrow> request \<Rightarrow> vstate \<times> world \<Rightarrow> (vstate \<times> world) option" where
  "step pol eng req (Received, w) =
     (if wellFormed eng (sample req) \<and> claimedUser req \<noteq> [] then Some (Extracting, w) else None)"
| "step pol eng req (Extracting, w) =
     (case extract_sample eng (sample req) of
        Inl r \<Rightarrow> Some (Decided Reject ExtractionFailed None, w)
      | Inr e \<Rightarrow> Some (Matching e, w))"
| "step pol eng req (Matching e, w) = Some (matching pol eng req w e, w)"
| "step pol eng req (Decided d r s, w) = Some (Recorded, record_attempt req w d r s)"
| "step pol eng req (Recorded, w) = None"

text \<open>
  Modelled from the spec: the number of stages of section 4.5 a state has ahead of it,
  the measure by which a run ends; the sources have no state machine.
\<close>

fun stages_left :: "vstate \<Rightarrow> nat" where
  "stages_left Received = 4"
| "stages_left Extracting = 3"
| "stages_left (Matching e) = 2"
| "stages_left (Decided d r s) = 1"
| "stages_left Recorded = 0"

text \<open>
  Modelled from the spec: a verification attempt as the run of the state machine of
  section 4.5 from a state until no transition is left; \<open>visited\<close> lists the states the
  run goes through.
\<close>

function run :: "policy \<Rightarrow> engine \<Rightarrow> request \<Rightarrow> vstate \<times> world \<Rightarrow> vstate \<times> world" where
  "run pol eng req c = (case step pol eng req c of None \<Rightarrow> c | Some c' \<Rightarrow> run pol eng req c')"
  by pat_completeness auto
termination
proof (relation "measure (\<lambda>(pol, eng, req, c). stages_left (fst c))")
  show "wf (measure (\<lambda>(pol, eng, req, c). stages_left (fst c)))"
    by simp
next
  fix pol eng req and c c' :: "vstate \<times> world"
  assume "step pol eng req c = Some c'"
  then have "stages_left (fst c') < stages_left (fst c)"
    by (cases "(pol, eng, req, c)" rule: step.cases)
      (auto simp: matching_def split: if_splits sum.splits option.splits)
  then show "((pol, eng, req, c'), (pol, eng, req, c)) \<in>
               measure (\<lambda>(pol, eng, req, c). stages_left (fst c))"
    by simp
qed

declare run.simps [simp del]

text \<open>
  Modelled from the spec: the states a run of the state machine of section 4.5 goes
  through, in order; not in the sources.
\<close>

function visited :: "policy \<Rightarrow> engine \<Rightarrow> request \<Rightarrow> vstate \<times> world \<Rightarrow> (vstate \<times> world) list" where
  "visited pol eng req c =
     c # (case step pol eng req c of None \<Rightarrow> [] | Some c' \<Rightarrow> visited pol eng req c')"
  by pat_completeness auto
termination
proof (relation "measure (\<lambda>(pol, eng, req, c). stages_left (fst c))")
  show "wf (measure (\<lambda>(pol, eng, req, c). stages_left (fst c)))"
    by simp
next
  fix pol eng req and c c' :: "vstate \<times> world"
  assume "step pol eng req c = Some c'"
  then have "stages_left (fst c') < stages_left (fst c)"
    by (cases "(pol, eng, req, c)" rule: step.cases)
      (auto simp: matching_def split: if_splits sum.splits option.splits)
  then show "((pol, eng, req, c'), (pol, eng, req, c)) \<in>
               measure (\<lambda>(pol, eng, req, c). stages_left (fst c))"
    by simp
qed

declare visited.simps [simp del]

text \<open>
  Modelled from the spec: the execution paths of an attempt, which the sources do not
  have. Section 5 lets an in-flight request be abandoned after any completed stage, so
  a path is the run from \<open>Received\<close> or any non-empty initial part of it. A request that
  is not well formed or claims no identity is an input error (section 7), rejected at
  once: its only path is \<open>Received\<close> alone.
\<close>

fun initial_parts :: "'a list \<Rightarrow> 'a list list" where
  "initial_parts [] = []"
| "initial_parts (x # xs) = [x] # map ((#) x) (initial_parts xs)"

text \<open>
  Modelled from the spec: the execution paths of an attempt from \<open>Received\<close> (sections 4.5
  and 5), not in the sources: the complete run and every non-empty initial part of it.
\<close>

definition paths ::
  "policy \<Rightarrow> engine \<Rightarrow> request \<Rightarrow> world \<Rightarrow> (vstate \<times> world) list list" where
  "paths pol eng req w = initial_parts (visited pol eng req (Received, w))"


text \<open>
  Modelled from the spec: a request the state machine accepts at \<open>Received\<close> (section
  4.5): a well-formed sample and a claimed identity.
\<close>

definition acceptable :: "engine \<Rightarrow> request \<Rightarrow> bool" where
  "acceptable eng req = (wellFormed eng (sample req) \<and> claimedUser req \<noteq> [])"

section \<open>Example inputs\<close>

definition no_failures :: failures where
  "no_failures = (\<lambda>n c. False)"

definition qh_order :: "queryHistory \<Rightarrow> nat" where
  "qh_order r = 0"

definition empty_db :: database where
  "empty_db = \<lparr>rows = [], next_id = 0, clock = 0, tie = qh_order\<rparr>"

definition alice_user :: user where
  "alice_user = \<lparr>user_id = ''alice'', role = ''USER''\<rparr>"

definition alice :: "session option" where
  "alice = Some \<lparr>user = Some alice_user\<rparr>"

definition forged_payload :: "(string \<times> json) list" where
  "forged_payload =
     [(''userId'', JStr ''mallory''), (''userQuery'', JStr ''top customers''),
      (''sqlQuery'', JStr ''SELECT 1'')]"

definition plain_payload :: "(string \<times> json) list" where
  "plain_payload = [(''userQuery'', JStr ''top customers''), (''sqlQuery'', JStr ''SELECT 1'')]"

definition history_row :: "nat \<Rightarrow> queryHistory" where
  "history_row n =
     \<lparr>qh_id = JNum (of_nat n), userId = ''alice'',
      cols = \<lparr>userQuery = JStr ''top customers'', sqlQuery = JStr ''SELECT 1'',
              relatedQueries = JNull, results = JNull, executionTime = JNull,
              successful = JBool True, errorMessage = JNull\<rparr>,
      createdAt = n, visualization = None\<rparr>"

definition alice_db :: database where
  "alice_db =
     \<lparr>rows = [history_row 0, history_row 1, history_row 2], next_id = 3, clock = 3,
      tie = qh_order\<rparr>"

definition second_page_of_two :: "(string \<times> string) list" where
  "second_page_of_two = [(''userId'', ''alice''), (''limit'', ''2''), (''page'', ''2'')]"

definition limit_zero :: "(string \<times> string) list" where
  "limit_zero = [(''userId'', ''alice''), (''limit'', ''0'')]"

definition limit_negative :: "(string \<times> string) list" where
  "limit_negative = [(''userId'', ''alice''), (''limit'', ''-2'')]"

definition limit_huge :: "(string \<times> string) list" where
  "limit_huge = [(''userId'', ''alice''), (''limit'', replicate 400 CHR ''9'')]"



definition example_policy :: policy where
  "example_policy =
     \<lparr>threshold = 4 / 5, maxFailedAttempts = 3, minSuccessfulSamples = 3, maxAttempts = 5,
      consistencyThreshold = 1 / 2, minQuality = 1 / 10\<rparr>"








text \<open>The properties of a request body other than \<open>userId\<close>.\<close>

definition without_userId :: "(string \<times> json) list \<Rightarrow> (string \<times> json) list" where
  "without_userId fs = filter (\<lambda>kv. fst kv \<noteq> ''userId'') fs"

section \<open>Properties of the route handlers\<close>

subsection \<open>POST: the owner of a created row\<close>

lemma map_of_without_userId:
  "k \<noteq> ''userId'' \<Longrightarrow> map_of (without_userId fs) k = map_of fs k"
  by (induction fs) (auto simp: without_userId_def)

lemma POST_reads_no_userId:
  assumes "map_of (without_userId fs1) = map_of (without_userId fs2)"
  shows "POST fails auth (Returns (JObj fs1)) db = POST fails auth (Returns (JObj fs2)) db"
proof -
  have same: "get_prop (JObj fs1) k = get_prop (JObj fs2) k" if "k \<noteq> ''userId''" for k
  proof -
    have "map_of fs1 k = map_of (without_userId fs1) k"
      using that by (simp add: map_of_without_userId)
    also have "\<dots> = map_of (without_userId fs2) k"
      by (simp add: assms)
    also have "\<dots> = map_of fs2 k"
      using that by (simp add: map_of_without_userId)
    finally show ?thesis by simp
  qed
  have "get_prop (JObj fs1) ''userQuery'' = get_prop (JObj fs2) ''userQuery''"
    "get_prop (JObj fs1) ''sqlQuery'' = get_prop (JObj fs2) ''sqlQuery''"
    "get_prop (JObj fs1) ''relatedQueries'' = get_prop (JObj fs2) ''relatedQueries''"
    "get_prop (JObj fs1) ''results'' = get_prop (JObj fs2) ''results''"
    "get_prop (JObj fs1) ''executionTime'' = get_prop (JObj fs2) ''executionTime''"
    "get_prop (JObj fs1) ''successful'' = get_prop (JObj fs2) ''successful''"
    "get_prop (JObj fs1) ''errorMessage'' = get_prop (JObj fs2) ''errorMessage''"
    "get_prop (JObj fs1) ''visualization'' = get_prop (JObj fs2) ''visualization''"
    by (rule same, simp)+
  then show ?thesis
    unfolding POST_def by (simp del: get_prop.simps split: outcome.splits option.splits)
qed

lemma POST_created_row:
  assumes "session_user sess = Some u"
    and "status (fst (POST fails (Returns sess) payload db)) = 201"
  shows "\<exists>r. body (fst (POST fails (Returns sess) payload db)) = QueryBody (Some r) \<and>
           userId r = user_id u \<and>
           rows (fst (snd (POST fails (Returns sess) payload db))) = rows db @ [r]"
  using assms
  by (auto simp: POST_def error_response_def create_def new_row_def Let_def
      split: outcome.splits if_splits prod.splits)

text \<open>
  C1. For an authenticated POST, two request bodies that differ at most in their
  \<open>userId\<close> property (present with any value, or absent) give the same response, the
  same database and the same calls; and whenever a row is created (status 201) its
  owner is the session user's id and it is the row appended to the table.
\<close>

theorem POST_owner_is_session_user:
  assumes "session_user sess = Some u"
    and "map_of (without_userId fs1) = map_of (without_userId fs2)"
  shows "POST fails (Returns sess) (Returns (JObj fs1)) db =
           POST fails (Returns sess) (Returns (JObj fs2)) db \<and>
         (status (fst (POST fails (Returns sess) (Returns (JObj fs1)) db)) = 201 \<longrightarrow>
            (\<exists>r. body (fst (POST fails (Returns sess) (Returns (JObj fs1)) db)) =
                    QueryBody (Some r) \<and>
                 userId r = user_id u \<and>
                 rows (fst (snd (POST fails (Returns sess) (Returns (JObj fs1)) db))) =
                   rows db @ [r]))"
  using POST_reads_no_userId [OF assms(2)] POST_created_row [OF assms(1)] by blast

lemma POST_forged_payload:
  "POST no_failures (Returns alice) (Returns (JObj forged_payload)) empty_db =
     (\<lparr>status = 201,
       body = QueryBody (Some
         \<lparr>qh_id = JNum 0, userId = ''alice'',
          cols = \<lparr>userQuery = JStr ''top customers'', sqlQuery = JStr ''SELECT 1'',
                  relatedQueries = JNull, results = JNull, executionTime = JNull,
                  successful = JBool True, errorMessage = JNull\<rparr>,
          createdAt = 0, visualization = None\<rparr>)\<rparr>,
      \<lparr>rows =
         [\<lparr>qh_id = JNum 0, userId = ''alice'',
           cols = \<lparr>userQuery = JStr ''top customers'', sqlQuery = JStr ''SELECT 1'',
                   relatedQueries = JNull, results = JNull, executionTime = JNull,
                   successful = JBool True, errorMessage = JNull\<rparr>,
           createdAt = 0, visualization = None\<rparr>],
       next_id = 1, clock = 1, tie = qh_order\<rparr>,
      [Create ''alice''
         \<lparr>userQuery = Some (JStr ''top customers''), sqlQuery = Some (JStr ''SELECT 1''),
          relatedQueries = None, results = None, executionTime = None,
          successful = Some (JBool True), errorMessage = None\<rparr>
         None])"
  by (simp add: POST_def no_failures_def alice_def alice_user_def session_user_def
      forged_payload_def empty_db_def create_def throws_def new_row_def stored_query_def
      stored_def chart_of_def Let_def)

theorem POST_owner_witness:
  "session_user alice = Some alice_user \<and>
   map_of (without_userId forged_payload) = map_of (without_userId plain_payload) \<and>
   POST no_failures (Returns alice) (Returns (JObj forged_payload)) empty_db =
     POST no_failures (Returns alice) (Returns (JObj plain_payload)) empty_db \<and>
   status (fst (POST no_failures (Returns alice) (Returns (JObj forged_payload)) empty_db)) = 201 \<and>
   (\<exists>r. body (fst (POST no_failures (Returns alice) (Returns (JObj forged_payload)) empty_db)) =
           QueryBody (Some r) \<and>
        userId r = ''alice'' \<and>
        rows (fst (snd (POST no_failures (Returns alice) (Returns (JObj forged_payload)) empty_db))) =
          rows empty_db @ [r])"
proof -
  have h1: "session_user alice = Some alice_user"
    by (simp add: session_user_def alice_def)
  have h2: "map_of (without_userId forged_payload) = map_of (without_userId plain_payload)"
    by (simp add: forged_payload_def plain_payload_def without_userId_def)
  have h3: "status (fst (POST no_failures (Returns alice) (Returns (JObj forged_payload)) empty_db)) = 201"
    by (simp add: POST_forged_payload)
  have h4: "user_id alice_user = ''alice''"
    by (simp add: alice_user_def)
  show ?thesis
    using POST_owner_is_session_user [OF h1 h2, of no_failures empty_db] h1 h2 h3
    unfolding h4 by blast
qed

subsection \<open>All four handlers: no session, no database access\<close>

text \<open>
  C8. When \<open>getServerSession\<close> resolves to no session, or to a session without a user,
  each of GET, POST, PUT and DELETE answers 401 with the body \<open>{ error: "unauthorized" }\<close>,
  leaves the database as it was and makes no call on the database client.
\<close>

theorem unauthenticated_is_401_without_database_access:
  assumes "session_user sess = None"
  shows "GET fails (Returns sess) searchParams db =
           (\<lparr>status = 401, body = ErrorBody ''unauthorized''\<rparr>, db, []) \<and>
         POST fails (Returns sess) payload db =
           (\<lparr>status = 401, body = ErrorBody ''unauthorized''\<rparr>, db, []) \<and>
         PUT fails (Returns sess) payload db =
           (\<lparr>status = 401, body = ErrorBody ''unauthorized''\<rparr>, db, []) \<and>
         DELETE fails (Returns sess) payload db =
           (\<lparr>status = 401, body = ErrorBody ''unauthorized''\<rparr>, db, [])"
  using assms by (simp add: GET_def POST_def PUT_def DELETE_def error_response_def)

theorem unauthenticated_witness:
  "session_user None = None \<and>
   GET no_failures (Returns None) [(''userId'', ''alice'')] empty_db =
     (\<lparr>status = 401, body = ErrorBody ''unauthorized''\<rparr>, empty_db, []) \<and>
   POST no_failures (Returns None) (Returns (JObj plain_payload)) empty_db =
     (\<lparr>status = 401, body = ErrorBody ''unauthorized''\<rparr>, empty_db, []) \<and>
   PUT no_failures (Returns None) (Returns (JObj plain_payload)) empty_db =
     (\<lparr>status = 401, body = ErrorBody ''unauthorized''\<rparr>, empty_db, []) \<and>
   DELETE no_failures (Returns None) (Returns (JObj plain_payload)) empty_db =
     (\<lparr>status = 401, body = ErrorBody ''unauthorized''\<rparr>, empty_db, [])"
proof -
  have h: "session_user None = None"
    by (simp add: session_user_def)
  show ?thesis
    using unauthenticated_is_401_without_database_access [OF h] h by simp
qed

subsection \<open>GET: who may read whose history\<close>

text \<open>
  C9. For an authenticated GET by a user whose role is not \<open>ADMIN\<close>, the status is 403
  exactly when the \<open>userId\<close> query parameter is not the session user's id; in particular
  a request without the parameter is answered 403.
\<close>

theorem GET_non_admin_403_iff_other_userId:
  assumes "session_user sess = Some u" and "role u \<noteq> ''ADMIN''"
  shows "(status (fst (GET fails (Returns sess) searchParams db)) = 403 \<longleftrightarrow>
            map_of searchParams ''userId'' \<noteq> Some (user_id u)) \<and>
         (map_of searchParams ''userId'' = None \<longrightarrow>
            GET fails (Returns sess) searchParams db =
              (\<lparr>status = 403,
                body = ErrorBody ''unauthorized: can only access your own query history''\<rparr>,
               db, []))"
  using assms
  by (auto simp: GET_def Let_def error_response_def findMany_def count_def
      split: prod.splits outcome.splits option.splits)

theorem GET_non_admin_witness:
  "session_user alice = Some alice_user \<and> role alice_user \<noteq> ''ADMIN'' \<and>
   map_of ([] :: (string \<times> string) list) ''userId'' \<noteq> Some (user_id alice_user) \<and>
   GET no_failures (Returns alice) [] empty_db =
     (\<lparr>status = 403,
       body = ErrorBody ''unauthorized: can only access your own query history''\<rparr>,
      empty_db, [])"
proof -
  have h1: "session_user alice = Some alice_user"
    by (simp add: session_user_def alice_def)
  have h2: "role alice_user \<noteq> ''ADMIN''"
    by (simp add: alice_user_def)
  show ?thesis
    using GET_non_admin_403_iff_other_userId [OF h1 h2, of no_failures "[]" empty_db] h1 h2
    by simp
qed

subsection \<open>Numbers: where doubles are exact\<close>

lemma bit_length_le: "n < 2 ^ m \<Longrightarrow> bit_length n \<le> m"
proof (induction n arbitrary: m rule: bit_length.induct)
  case (1 n)
  show ?case
  proof (cases "n = 0")
    case True
    then show ?thesis by (simp add: bit_length.simps)
  next
    case False
    with "1.prems" obtain k where m: "m = Suc k"
      by (cases m) auto
    with "1.prems" have "n div 2 < 2 ^ k"
      by auto
    from "1.IH" [OF False this] show ?thesis
      using False m by (simp add: bit_length.simps)
  qed
qed

lemma bit_length_pos: "0 < n \<Longrightarrow> 0 < bit_length n"
  by (subst bit_length.simps) simp

lemma bit_length_lower: "0 < n \<Longrightarrow> 2 ^ (bit_length n - 1) \<le> n"
proof (induction n rule: bit_length.induct)
  case (1 n)
  then have n: "n \<noteq> 0" by simp
  have bl: "bit_length n = Suc (bit_length (n div 2))"
    using n by (subst bit_length.simps) simp
  show ?case
  proof (cases "n div 2 = 0")
    case True
    then show ?thesis using bl n by (simp add: bit_length.simps)
  next
    case False
    then have "2 ^ (bit_length (n div 2) - 1) \<le> n div 2"
      using "1.IH" [OF n] by simp
    moreover have "0 < bit_length (n div 2)"
      using False by (simp add: bit_length_pos)
    ultimately have "2 ^ bit_length (n div 2) \<le> 2 * (n div 2)"
      by (cases "bit_length (n div 2)") auto
    then show ?thesis using bl by simp
  qed
qed

lemma round_half_even_int: "round_half_even (of_int z) = z"
  by (simp add: round_half_even_def)

lemma round_half_even_le: "y \<le> of_int z \<Longrightarrow> round_half_even y \<le> z"
proof (cases "y = of_int z")
  case True
  then show ?thesis by (simp add: round_half_even_int)
next
  case False
  assume "y \<le> of_int z"
  with False have "y < of_int z" by simp
  then have "\<lfloor>y\<rfloor> < z" by (simp add: floor_less_iff)
  then show ?thesis by (simp add: round_half_even_def Let_def)
qed

lemma round_half_even_gt: "of_int z + 1 / 2 < y \<Longrightarrow> z < round_half_even y"
proof -
  assume a: "of_int z + 1 / 2 < y"
  then have "of_int z \<le> y" by simp
  then have f: "z \<le> \<lfloor>y\<rfloor>" by (simp add: le_floor_iff)
  show ?thesis
  proof (cases "z = \<lfloor>y\<rfloor>")
    case True
    with a have "1 / 2 < y - of_int \<lfloor>y\<rfloor>" by simp
    then show ?thesis using True by (simp add: round_half_even_def Let_def)
  next
    case False
    with f have "z < \<lfloor>y\<rfloor>" by simp
    then show ?thesis by (simp add: round_half_even_def Let_def)
  qed
qed

lemma scale2_inverse: "scale2 (scale2 x (- e)) e = x"
  by (cases "e = 0") (auto simp: scale2_def)

lemma exponent_ge_one:
  assumes "1 \<le> x" and "x < 2 ^ 53"
  shows "exponent x = int (bit_length (nat \<lfloor>x\<rfloor>)) - 53"
    and "0 < bit_length (nat \<lfloor>x\<rfloor>)" and "bit_length (nat \<lfloor>x\<rfloor>) \<le> 53"
proof -
  have f1: "1 \<le> \<lfloor>x\<rfloor>" using assms(1) by (simp add: le_floor_iff)
  have "\<lfloor>x\<rfloor> < 2 ^ 53" using assms(2) by (simp add: floor_less_iff)
  then have "nat \<lfloor>x\<rfloor> < 2 ^ 53" using f1 by (simp add: nat_less_iff)
  then show le: "bit_length (nat \<lfloor>x\<rfloor>) \<le> 53" by (rule bit_length_le)
  show pos: "0 < bit_length (nat \<lfloor>x\<rfloor>)" using f1 by (simp add: bit_length_pos)
  show "exponent x = int (bit_length (nat \<lfloor>x\<rfloor>)) - 53"
    using assms(1) le pos by (simp add: exponent_def)
qed

lemma to_double_int:
  assumes "\<bar>k\<bar> < 2 ^ 53"
  shows "to_double (of_int k) = Fin (of_int k)"
proof -
  have pos: "round_pos (of_int j) = Fin (of_int j)" if "0 < j" "j < 2 ^ 53" for j :: int
  proof -
    have x1: "(1::rat) \<le> of_int j" using that by simp
    have x2: "(of_int j :: rat) < 2 ^ 53" using that(2)
      by (metis of_int_less_numeral_power_cancel_iff)
    from exponent_ge_one [OF x1 x2] have e: "exponent (of_int j) \<le> 0"
      by simp
    define e where "e = exponent (of_int j :: rat)"
    have "scale2 (of_int j) (- e) = of_int (j * 2 ^ nat (- e))"
      using e by (simp add: scale2_def e_def)
    then have "scale2 (of_int (round_half_even (scale2 (of_int j) (- e)))) e = (of_int j :: rat)"
      by (metis round_half_even_int scale2_inverse)
    moreover have "\<not> (2 ^ 1024 \<le> (of_int j :: rat))"
      using x2 by (simp add: not_le)
    ultimately show ?thesis
      by (simp add: round_pos_def Let_def e_def)
  qed
  consider "k = 0" | "0 < k" | "k < 0" by linarith
  then show ?thesis
  proof cases
    case 1
    then show ?thesis by (simp add: to_double_def)
  next
    case 2
    then show ?thesis using assms pos [of k] by (simp add: to_double_def)
  next
    case 3
    then have "0 < - k" "- k < 2 ^ 53" using assms by auto
    from pos [OF this] show ?thesis using 3 by (simp add: to_double_def)
  qed
qed

lemma round_pos_ceiling:
  assumes e: "exponent x \<le> 0"
    and up: "x \<le> of_int c"
    and lo: "of_int (c - 1) + 1 / (2 * 2 ^ nat (- exponent x)) < x"
    and c: "c \<le> 2 ^ 53"
  shows "js_ceil (round_pos x) = Fin (of_int c)"
proof -
  define s where "s = nat (- exponent x)"
  define y where "y = x * 2 ^ s"
  define m where "m = round_half_even y"
  have sc: "scale2 x (- exponent x) = y"
    using e by (simp add: scale2_def y_def s_def)
  have v: "scale2 (of_int m) (exponent x) = of_int m / 2 ^ s"
    using e by (cases "exponent x = 0") (auto simp: scale2_def s_def)
  have "y \<le> of_int (c * 2 ^ s)"
    using up by (simp add: y_def)
  then have m_up: "m \<le> c * 2 ^ s"
    unfolding m_def by (rule round_half_even_le)
  have "of_int ((c - 1) * 2 ^ s) + 1 / 2 < y"
  proof -
    have "(of_int (c - 1) + 1 / (2 * 2 ^ s)) * 2 ^ s < x * 2 ^ s"
      using lo by (simp add: s_def)
    then show ?thesis
      by (simp add: y_def algebra_simps)
  qed
  then have m_lo: "(c - 1) * 2 ^ s < m"
    unfolding m_def by (rule round_half_even_gt)
  have p: "(0::rat) < 2 ^ s" by simp
  have v_up: "of_int m / 2 ^ s \<le> (of_int c :: rat)"
  proof -
    have "(of_int m :: rat) \<le> of_int (c * 2 ^ s)" using m_up by (simp only: of_int_le_iff)
    then show ?thesis using p by (simp add: divide_le_eq)
  qed
  have v_lo: "(of_int c :: rat) - 1 < of_int m / 2 ^ s"
  proof -
    have "(of_int ((c - 1) * 2 ^ s) :: rat) < of_int m" using m_lo by (simp only: of_int_less_iff)
    then show ?thesis using p by (simp add: less_divide_eq algebra_simps)
  qed
  have ceil: "\<lceil>of_int m / (2 ^ s :: rat)\<rceil> = c"
    by (rule ceiling_unique) (use v_lo v_up in simp_all)
  have "(of_int c :: rat) \<le> 2 ^ 53" using c
    by (metis of_int_le_numeral_power_cancel_iff)
  then have "of_int m / 2 ^ s < (2 ^ 1024 :: rat)"
    using v_up by (simp add: less_le_trans [of _ "2 ^ 53 + 1"] le_less_trans [of _ "2 ^ 53"])
  then show ?thesis
    using ceil by (simp add: round_pos_def Let_def sc m_def [symmetric] v not_le)
qed


lemma to_double_quotient_ceiling:
  assumes n: "n < 2 ^ 53" and l1: "1 \<le> l" and l2: "l < 2 ^ 53"
  shows "js_ceil (to_double (of_nat n / of_int l)) = Fin (of_int \<lceil>of_nat n / (of_int l :: rat)\<rceil>)"
proof (cases "n = 0")
  case True
  then show ?thesis by (simp add: to_double_def)
next
  case False
  define x :: rat where "x = of_nat n / of_int l"
  define c where "c = \<lceil>x\<rceil>"
  have lpos: "(0::rat) < of_int l" using l1 by simp
  have xpos: "0 < x" using False lpos by (simp add: x_def)
  have xn: "x \<le> of_nat n"
  proof -
    have "(of_nat n :: rat) \<le> of_nat n * of_int l"
      using l1 by (simp add: mult_le_cancel_left1)
    then show ?thesis using lpos by (simp add: x_def divide_le_eq)
  qed
  have up: "x \<le> of_int c" by (simp add: c_def)
  have "(of_nat n :: rat) < 2 ^ 53" using n
    by (metis of_nat_less_numeral_power_cancel_iff)
  with xn have x53: "x < 2 ^ 53" by simp
  then have "\<lceil>x\<rceil> \<le> 2 ^ 53"
    by (simp add: ceiling_le_iff)
  then have c53: "c \<le> 2 ^ 53" by (simp add: c_def)
  have gap: "of_int (c - 1) + 1 / of_int l \<le> x"
  proof -
    have "of_int (c - 1) < x" using ceiling_correct [of x] by (simp add: c_def)
    then have "of_int (c - 1) * of_int l < (of_nat n :: rat)"
      using lpos by (simp add: x_def less_divide_eq)
    then have "(of_int ((c - 1) * l) :: rat) < of_int (int n)" by simp
    then have "(c - 1) * l < int n" by (simp only: of_int_less_iff)
    then have "(c - 1) * l + 1 \<le> int n" by simp
    then have "(of_int ((c - 1) * l + 1) :: rat) \<le> of_int (int n)" by (simp only: of_int_le_iff)
    then have "of_int (c - 1) * of_int l + 1 \<le> (of_nat n :: rat)" by simp
    then show ?thesis using lpos by (simp add: x_def le_divide_eq algebra_simps)
  qed
  have small: "exponent x \<le> 0 \<and> l < 2 * 2 ^ nat (- exponent x)"
  proof (cases "1 \<le> x")
    case True
    define f where "f = nat \<lfloor>x\<rfloor>"
    define b where "b = bit_length f"
    from exponent_ge_one [OF True x53]
    have e: "exponent x = int b - 53" and b0: "0 < b" and b53: "b \<le> 53"
      by (simp_all add: b_def f_def)
    have f1: "0 < f" using True by (simp add: f_def le_floor_iff)
    have lower: "2 ^ (b - 1) \<le> f" unfolding b_def using f1 by (rule bit_length_lower)
    have "of_nat f \<le> x" using xpos by (simp add: f_def)
    then have "of_nat f * of_int l \<le> (of_nat n :: rat)"
      using lpos by (simp add: x_def le_divide_eq)
    then have "(of_int (int f * l) :: rat) \<le> of_int (int n)" by simp
    then have fl: "int f * l \<le> int n" by (simp only: of_int_le_iff)
    have s: "nat (- exponent x) = 53 - b" using e b53 by simp
    have "l < 2 * 2 ^ (53 - b)"
    proof (rule ccontr)
      assume "\<not> l < 2 * 2 ^ (53 - b)"
      then have "2 * 2 ^ (53 - b) \<le> l" by simp
      moreover have "(2::int) ^ (b - 1) \<le> int f" using lower
        by (metis of_nat_numeral of_nat_power of_nat_le_iff)
      ultimately have "(2 * 2 ^ (53 - b)) * (2::int) ^ (b - 1) \<le> l * int f"
        using l1 by (intro mult_mono) auto
      moreover have "(2 * 2 ^ (53 - b)) * (2::int) ^ (b - 1) = 2 ^ 53"
      proof -
        have "(2 * 2 ^ (53 - b)) * (2::int) ^ (b - 1) = 2 ^ (Suc (53 - b) + (b - 1))"
          by (simp only: power_add power_Suc)
        moreover have "Suc (53 - b) + (b - 1) = 53" using b0 b53 by simp
        ultimately show ?thesis by simp
      qed
      ultimately have "2 ^ 53 \<le> int n" using fl by (simp add: mult.commute)
      then show False using n by (simp add: of_nat_less_numeral_power_cancel_iff not_le [symmetric])
    qed
    then show ?thesis using e b53 s by simp
  next
    case False
    then have e: "exponent x \<le> - 52" by (simp add: exponent_def)
    then have "52 \<le> nat (- exponent x)" by simp
    then have "(2::int) ^ 52 \<le> 2 ^ nat (- exponent x)"
      by (intro power_increasing) auto
    then show ?thesis using e l2 by simp
  qed
  have lo: "of_int (c - 1) + 1 / (2 * 2 ^ nat (- exponent x)) < x"
  proof -
    have "(of_int l :: rat) < of_int (2 * 2 ^ nat (- exponent x))"
      using small by (simp only: of_int_less_iff)
    then have "(of_int l :: rat) < 2 * 2 ^ nat (- exponent x)" by simp
    then have "1 / (2 * 2 ^ nat (- exponent x)) < 1 / (of_int l :: rat)"
      using lpos by (simp add: frac_less2)
    then show ?thesis using gap by simp
  qed
  from round_pos_ceiling [OF _ up lo c53] small
  show ?thesis using xpos by (simp add: to_double_def x_def [symmetric] c_def)
qed

lemma bit_length_gt: "2 ^ m \<le> n \<Longrightarrow> m < bit_length n"
proof (induction n arbitrary: m rule: bit_length.induct)
  case (1 n)
  have n: "n \<noteq> 0"
  proof
    assume "n = 0"
    with "1.prems" have "2 ^ m \<le> (0 :: nat)"
      by simp
    then show False
      by simp
  qed
  have bl: "bit_length n = Suc (bit_length (n div 2))"
    using n by (subst bit_length.simps) simp
  show ?case
  proof (cases m)
    case 0
    then show ?thesis
      using bl by simp
  next
    case (Suc k)
    with "1.prems" have "2 ^ k \<le> n div 2"
      by auto
    from "1.IH" [OF n this] show ?thesis
      using bl Suc by simp
  qed
qed

lemma round_half_even_ge: "of_int z \<le> y \<Longrightarrow> z \<le> round_half_even y"
proof -
  assume "of_int z \<le> y"
  then have "z \<le> \<lfloor>y\<rfloor>"
    by (simp add: le_floor_iff)
  then show ?thesis
    by (simp add: round_half_even_def Let_def)
qed

lemma to_double_overflow:
  assumes "2 ^ 1024 \<le> x"
  shows "to_double x = PosInf"
proof -
  define f where "f = nat \<lfloor>x\<rfloor>"
  define b where "b = bit_length f"
  have x1: "1 \<le> x"
    using assms by (rule order_trans [rotated]) simp
  have "(2 :: int) ^ 1024 \<le> \<lfloor>x\<rfloor>"
    using assms by (simp add: le_floor_iff)
  then have "2 ^ 1024 \<le> f"
    by (simp add: f_def le_nat_iff)
  then have b1: "1024 < b"
    unfolding b_def by (rule bit_length_gt)
  have f0: "0 < f"
    using x1 by (simp add: f_def le_floor_iff)
  have low: "2 ^ (b - 1) \<le> f"
    unfolding b_def using f0 by (rule bit_length_lower)
  have e: "exponent x = int b - 53"
    using x1 b1 by (simp add: exponent_def b_def f_def)
  define k where "k = b - 53"
  have ek: "exponent x = int k" and kb: "b - 1 = 52 + k"
    using e b1 by (simp_all add: k_def)
  have "of_nat f \<le> x"
    using x1 by (simp add: f_def)
  moreover have "(2 :: rat) ^ (b - 1) \<le> of_nat f"
    using low by (metis of_nat_numeral of_nat_power of_nat_le_iff)
  ultimately have "(2 :: rat) ^ (b - 1) \<le> x"
    by linarith
  moreover have "(2 :: rat) ^ 52 * 2 ^ k = 2 ^ (b - 1)"
    by (simp only: kb power_add)
  ultimately have "(2 :: rat) ^ 52 * 2 ^ k \<le> x"
    by simp
  then have "of_int (2 ^ 52) \<le> x / 2 ^ k"
    by (simp add: le_divide_eq)
  then have m: "2 ^ 52 \<le> round_half_even (x / 2 ^ k)"
    by (rule round_half_even_ge)
  have sc: "scale2 x (- exponent x) = x / 2 ^ k"
    by (cases "k = 0") (simp_all add: scale2_def ek)
  have "(2 :: rat) ^ 1024 \<le> 2 ^ (52 + k)"
    using b1 kb by (intro power_increasing) auto
  also have "\<dots> \<le> of_int (round_half_even (x / 2 ^ k)) * 2 ^ k"
  proof -
    have "(of_int (2 ^ 52) :: rat) \<le> of_int (round_half_even (x / 2 ^ k))"
      using m by (simp only: of_int_le_iff)
    then show ?thesis
      by (simp add: power_add)
  qed
  finally have "2 ^ 1024 \<le> scale2 (of_int (round_half_even (scale2 x (- exponent x)))) (exponent x)"
    by (simp add: sc) (simp add: scale2_def ek)
  then have "round_pos x = PosInf"
    by (simp add: round_pos_def Let_def)
  then show ?thesis
    using x1 by (simp add: to_double_def)
qed


text \<open>Above \<open>2^53\<close> an integer is rounded: \<open>2^53 + 1\<close> is read as \<open>2^53\<close>.\<close>

lemma bit_length_2_53_1: "bit_length 9007199254740993 = 54"
  by (simp add: bit_length.simps)

lemma to_double_2_53_1: "to_double 9007199254740993 = Fin 9007199254740992"
proof -
  have f: "\<lfloor>9007199254740993 :: rat\<rfloor> = 9007199254740993"
    by simp
  have e: "exponent 9007199254740993 = 1"
    by (simp add: exponent_def bit_length_2_53_1)
  have h: "\<lfloor>(9007199254740993 :: rat) / 2\<rfloor> = 4503599627370496"
    by (rule floor_unique) simp_all
  have r: "round_half_even (9007199254740993 / 2) = 4503599627370496"
    by (simp add: round_half_even_def h Let_def)
  show ?thesis
    by (simp add: to_double_def round_pos_def e scale2_def r Let_def)
qed

lemma to_double_numeral:
  "(numeral k :: int) < 2 ^ 53 \<Longrightarrow> to_double (numeral k) = Fin (numeral k)"
  "(numeral k :: int) < 2 ^ 53 \<Longrightarrow> to_double (- numeral k) = Fin (- numeral k)"
  "to_double 0 = Fin 0" "to_double 1 = Fin 1"
  using to_double_int [of "numeral k"] to_double_int [of "- numeral k"] to_double_int [of 1]
  by (simp_all add: to_double_def)

lemma js_of_nat_small: "n < 2 ^ 53 \<Longrightarrow> js_of_nat n = Fin (of_nat n)"
  using to_double_int [of "int n"] by (simp add: js_of_nat_def)


lemma parseInt_examples:
  "parseInt ''10'' = Fin 10" "parseInt '' -3x'' = Fin (- 3)" "parseInt ''abc'' = NaN"
  "parseInt ''0x1f'' = Fin 31" "parseInt ''0'' = Fin 0"
  "parseInt [CHR 0xC2, CHR 0xA0, CHR ''2''] = Fin 2"
  by (simp_all add: parseInt_def strip_sign_def strip_radix_def is_ws1_def is_ws2_def is_ws3_def
      is_digit_def digit_of_def digits_value_def to_double_numeral)

lemma bit_length_1: "bit_length 1 = 1" "bit_length (Suc 0) = 1"
  by (simp_all add: bit_length.simps)

lemma round_pos_exact:
  assumes "scale2 x (- exponent x) = of_int z" and "x < 2 ^ 53"
  shows "round_pos x = Fin x"
proof -
  have "scale2 (of_int (round_half_even (scale2 x (- exponent x)))) (exponent x) = x"
    using assms(1) by (metis round_half_even_int scale2_inverse)
  moreover have "\<not> (2 ^ 1024 \<le> x)"
    using assms(2) by (simp add: not_le)
  ultimately show ?thesis
    by (simp add: round_pos_def Let_def)
qed

lemma three_halves: "to_double (- (3 / 2)) = Fin (- (3 / 2))"
proof -
  have "\<lfloor>(3::rat) / 2\<rfloor> = 1"
    by (rule floor_unique) simp_all
  then have e: "exponent (3 / 2) = - 52"
    by (simp add: exponent_def bit_length_1)
  have "scale2 (3 / 2) (- exponent (3 / 2)) = of_int 6755399441055744"
    by (simp add: e scale2_def)
  then have "round_pos (3 / 2) = Fin (3 / 2)"
    by (rule round_pos_exact) simp
  then show ?thesis
    by (simp add: to_double_def)
qed


lemma parseInt_above_2_53: "parseInt ''9007199254740993'' = Fin 9007199254740992"
  by (simp add: parseInt_def strip_sign_def strip_radix_def is_ws1_def is_ws2_def is_ws3_def
      is_digit_def digit_of_def digits_value_def to_double_2_53_1)

text \<open>A run of 400 nines is read as \<open>Infinity\<close>.\<close>

lemma strip_ws_digit: "\<not> is_ws1 c \<Longrightarrow> c \<noteq> CHR 0xC2 \<Longrightarrow> c \<noteq> CHR 0xE1 \<Longrightarrow> c \<noteq> CHR 0xE2 \<Longrightarrow> c \<noteq> CHR 0xE3 \<Longrightarrow> c \<noteq> CHR 0xEF \<Longrightarrow> strip_ws (c # s) = c # s"
  by (cases "(c # s)" rule: strip_ws.cases) (auto simp: is_ws2_def is_ws3_def)

lemma foldl_nines:
  "foldl (\<lambda>acc c. acc * 10 + (case digit_of c of None \<Rightarrow> 0 | Some d \<Rightarrow> d)) a (replicate n CHR ''9'')
     = a * 10 ^ n + (10 ^ n - 1)"
proof (induction n arbitrary: a)
  case 0
  then show ?case by simp
next
  case (Suc n)
  have d: "digit_of CHR ''9'' = Some 9"
    by (simp add: digit_of_def)
  have one: "(1 :: nat) \<le> 10 ^ n"
    by simp
  have "foldl (\<lambda>acc c. acc * 10 + (case digit_of c of None \<Rightarrow> 0 | Some d \<Rightarrow> d)) a
          (replicate (Suc n) CHR ''9'') = (a * 10 + 9) * 10 ^ n + (10 ^ n - 1)"
    by (simp add: Suc d)
  also have "\<dots> = a * 10 ^ Suc n + (10 ^ Suc n - 1)"
    using one by (simp add: algebra_simps)
  finally show ?case .
qed

lemma parseInt_nines: "parseInt (replicate 400 CHR ''9'') = PosInf"
proof -
  have r: "replicate 400 CHR ''9'' = CHR ''9'' # replicate 399 CHR ''9''"
    by (simp add: replicate_Suc [symmetric] del: replicate_Suc)
  have s: "strip_ws (replicate 400 CHR ''9'') = replicate 400 CHR ''9''"
    unfolding r by (rule strip_ws_digit) (simp_all add: is_ws1_def)
  have sg: "strip_sign (replicate 400 CHR ''9'') = (False, replicate 400 CHR ''9'')"
    unfolding r by (simp add: strip_sign_def)
  have rd: "strip_radix (replicate 400 CHR ''9'') = (10, replicate 400 CHR ''9'')"
    unfolding r by (simp add: strip_radix_def)
  have tw: "takeWhile (is_digit 10) (replicate 400 CHR ''9'') = replicate 400 CHR ''9''"
    by (simp add: takeWhile_replicate is_digit_def digit_of_def)
  have v: "digits_value 10 (replicate 400 CHR ''9'') = 10 ^ 400 - 1"
    by (simp add: digits_value_def foldl_nines)
  have "(2 :: nat) ^ 1024 \<le> 10 ^ 400 - 1"
    by simp
  then have "(of_nat (2 ^ 1024) :: rat) \<le> of_nat (10 ^ 400 - 1)"
    by (simp only: of_nat_le_iff)
  then have big: "(2 :: rat) ^ 1024 \<le> of_int (int (10 ^ 400 - 1))"
    by simp
  show ?thesis
    using to_double_overflow [OF big]
    by (simp add: parseInt_def s sg rd tw v is_digit_def digit_of_def)
qed


subsection \<open>GET: pagination\<close>

lemma as_int_of_int: "as_int (Fin (of_int n)) = Some n"
  by (simp add: as_int_def)

lemma selected_descending:
  "sorted_wrt (\<lambda>a b. createdAt b \<le> createdAt a) (selected db uid succ)"
proof -
  have "sorted (map createdAt (sort_key createdAt
          (sort_key (tie db) (filter (matches uid succ) (rows db)))))"
    by (rule sorted_sort_key)
  then have "sorted_wrt (\<lambda>a b. createdAt a \<le> createdAt b)
               (sort_key createdAt (sort_key (tie db) (filter (matches uid succ) (rows db))))"
    by (simp add: sorted_map)
  then show ?thesis
    by (simp add: selected_def sorted_wrt_rev)
qed

lemma length_selected: "length (selected db uid succ) \<le> length (rows db)"
  by (simp add: selected_def)

lemma GET_page:
  assumes u: "session_user sess = Some u"
    and ok: "status (fst (GET fails (Returns sess) searchParams db)) = 200"
    and l: "limit_of searchParams = Fin (of_int l)" and l1: "1 \<le> l" and l2: "l < 2 ^ 53"
    and p: "page_of searchParams = Fin (of_int p)" and sk: "\<bar>(p - 1) * l\<bar> < 2 ^ 53"
    and n: "length (rows db) < 2 ^ 53"
  shows "1 \<le> p \<and>
         fst (GET fails (Returns sess) searchParams db) =
           \<lparr>status = 200,
            body = QueriesBody
              (take (nat l) (drop (nat ((p - 1) * l))
                 (selected db (filter_userId u searchParams) (successful_of searchParams))))
              \<lparr>total = JNum (of_nat (length
                 (selected db (filter_userId u searchParams) (successful_of searchParams)))),
               page = JNum (of_int p), limit = JNum (of_int l),
               totalPages = JNum (of_int \<lceil>of_nat (length
                 (selected db (filter_userId u searchParams) (successful_of searchParams)))
                   / (of_int l :: rat)\<rceil>)\<rparr>\<rparr>"
proof -
  define sel where "sel = selected db (filter_userId u searchParams) (successful_of searchParams)"
  have "\<bar>p - 1\<bar> * 1 \<le> \<bar>p - 1\<bar> * l"
    using l1 by (intro mult_left_mono) auto
  then have p53: "\<bar>p - 1\<bar> < 2 ^ 53"
    using sk l1 by (simp add: abs_mult)
  have s1: "js_sub (page_of searchParams) (Fin 1) = Fin (of_int (p - 1))"
    using to_double_int [OF p53] by (simp add: p)
  have s2: "js_mul (Fin (of_int (p - 1))) (limit_of searchParams) = Fin (of_int ((p - 1) * l))"
    using to_double_int [OF sk] by (simp add: l)
  have nsel: "length sel < 2 ^ 53"
    using n length_selected [of db "filter_userId u searchParams" "successful_of searchParams"]
    by (simp add: sel_def)
  have tot: "js_of_nat (length sel) = Fin (of_nat (length sel))"
    using nsel by (rule js_of_nat_small)
  have l0: "(of_int l :: rat) \<noteq> 0"
    using l1 by simp
  have tp: "js_ceil (js_div (Fin (of_nat (length sel))) (limit_of searchParams)) =
              Fin (of_int \<lceil>of_nat (length sel) / (of_int l :: rat)\<rceil>)"
    using to_double_quotient_ceiling [OF nsel l1 l2] l0 by (simp add: l)
  have nn: "0 \<le> (p - 1) * l"
    using u ok s1 s2
    by (auto simp: GET_def Let_def error_response_def findMany_def count_def as_int_of_int l
        split: if_splits simp del: of_int_mult of_int_diff)
  with l1 have p1: "1 \<le> p"
    by (auto simp: zero_le_mult_iff)
  have "fst (GET fails (Returns sess) searchParams db) =
      \<lparr>status = 200,
       body = QueriesBody (take (nat l) (drop (nat ((p - 1) * l)) sel))
         \<lparr>total = JNum (of_nat (length sel)), page = JNum (of_int p), limit = JNum (of_int l),
          totalPages = JNum (of_int \<lceil>of_nat (length sel) / (of_int l :: rat)\<rceil>)\<rparr>\<rparr>"
    using u ok s1 s2 nn l1 tot tp
    by (auto simp: GET_def Let_def error_response_def findMany_def count_def window_def
        as_int_of_int l p sel_def [symmetric]
        split: if_splits simp del: of_int_mult of_int_diff)
  then show ?thesis
    using p1 by (simp add: sel_def)
qed


text \<open>
  C10, as amended. For every GET answered 200 whose limit \<open>l\<close> (the parsed \<open>limit\<close>
  parameter, or 10 when it is absent or empty) and page \<open>p\<close> (the parsed \<open>page\<close>
  parameter, or 1 when it is absent or empty) are integers with \<open>1 \<le> l < 2^53\<close> and
  \<open>|(p - 1) * l| < 2^53\<close>, over a table of fewer than \<open>2^53\<close> rows: the page is at least 1,
  the returned records are the selected records in descending creation order with the
  first \<open>(p - 1) * l\<close> skipped and at most \<open>l\<close> taken, and \<open>pagination.totalPages\<close> is the
  ceiling of \<open>total / l\<close>.
\<close>

theorem GET_pagination_for_positive_limit:
  assumes "session_user sess = Some u"
    and "status (fst (GET fails (Returns sess) searchParams db)) = 200"
    and "limit_of searchParams = Fin (of_int l)" and "1 \<le> l" and "l < 2 ^ 53"
    and "page_of searchParams = Fin (of_int p)" and "\<bar>(p - 1) * l\<bar> < 2 ^ 53"
    and "length (rows db) < 2 ^ 53"
  shows "\<exists>qs sel.
           sel = selected db (filter_userId u searchParams) (successful_of searchParams) \<and>
           1 \<le> p \<and>
           (param searchParams ''limit'' = None \<longrightarrow> l = 10) \<and>
           (param searchParams ''page'' = None \<longrightarrow> p = 1) \<and>
           qs = take (nat l) (drop (nat ((p - 1) * l)) sel) \<and>
           length qs \<le> nat l \<and>
           sorted_wrt (\<lambda>a b. createdAt b \<le> createdAt a) qs \<and>
           fst (GET fails (Returns sess) searchParams db) =
             \<lparr>status = 200,
              body = QueriesBody qs
                \<lparr>total = JNum (of_nat (length sel)), page = JNum (of_int p),
                 limit = JNum (of_int l),
                 totalPages = JNum (of_int \<lceil>of_nat (length sel) / (of_int l :: rat)\<rceil>)\<rparr>\<rparr>"
proof -
  from GET_page [OF assms] have p1: "1 \<le> p" and
    r: "fst (GET fails (Returns sess) searchParams db) =
          \<lparr>status = 200,
           body = QueriesBody
             (take (nat l) (drop (nat ((p - 1) * l))
                (selected db (filter_userId u searchParams) (successful_of searchParams))))
             \<lparr>total = JNum (of_nat (length
                (selected db (filter_userId u searchParams) (successful_of searchParams)))),
              page = JNum (of_int p), limit = JNum (of_int l),
              totalPages = JNum (of_int \<lceil>of_nat (length
                (selected db (filter_userId u searchParams) (successful_of searchParams)))
                  / (of_int l :: rat)\<rceil>)\<rparr>\<rparr>"
    by blast+
  have dl: "param searchParams ''limit'' = None \<Longrightarrow> l = 10"
    using assms(3) by (simp add: limit_of_def)
  have dp: "param searchParams ''page'' = None \<Longrightarrow> p = 1"
    using assms(6) by (simp add: page_of_def)
  have srt: "sorted_wrt (\<lambda>a b. createdAt b \<le> createdAt a)
               (take (nat l) (drop (nat ((p - 1) * l))
                  (selected db (filter_userId u searchParams) (successful_of searchParams))))"
    by (intro sorted_wrt_take sorted_wrt_drop selected_descending)
  show ?thesis
    using p1 r dl dp srt by auto
qed

lemma selected_alice_db:
  "selected alice_db ''alice'' None = [history_row 2, history_row 1, history_row 0]"
  by (simp add: selected_def alice_db_def matches_def history_row_def qh_order_def)

lemma second_page_of_two_values:
  "limit_of second_page_of_two = Fin 2" "page_of second_page_of_two = Fin 2"
  "successful_of second_page_of_two = None" "filter_userId alice_user second_page_of_two = ''alice''"
  "map_of second_page_of_two ''userId'' = Some ''alice''"
  by (simp_all add: limit_of_def page_of_def successful_of_def filter_userId_def param_def
      second_page_of_two_def parseInt_def strip_sign_def strip_radix_def is_ws1_def is_ws2_def
      is_ws3_def is_digit_def digit_of_def digits_value_def to_double_numeral)

lemma GET_second_page_of_two_status:
  "status (fst (GET no_failures (Returns alice) second_page_of_two alice_db)) = 200"
  by (simp add: GET_def alice_def session_user_def second_page_of_two_values findMany_def
      count_def throws_def no_failures_def as_int_def alice_user_def Let_def to_double_numeral)

theorem GET_pagination_witness:
  "limit_of second_page_of_two = Fin 2 \<and> page_of second_page_of_two = Fin 2 \<and>
   fst (GET no_failures (Returns alice) second_page_of_two alice_db) =
     \<lparr>status = 200,
      body = QueriesBody [history_row 0]
        \<lparr>total = JNum 3, page = JNum 2, limit = JNum 2, totalPages = JNum 2\<rparr>\<rparr>"
proof -
  have h1: "session_user alice = Some alice_user"
    by (simp add: session_user_def alice_def)
  have h3: "limit_of second_page_of_two = Fin (of_int 2)"
    by (simp add: second_page_of_two_values)
  have h6: "page_of second_page_of_two = Fin (of_int 2)"
    by (simp add: second_page_of_two_values)
  have h4: "(1::int) \<le> 2" and h5: "(2::int) < 2 ^ 53" and h7: "\<bar>(2 - 1) * (2::int)\<bar> < 2 ^ 53"
    by simp_all
  have h8: "length (rows alice_db) < 2 ^ 53"
    by (simp add: alice_db_def)
  have c: "\<lceil>(3::rat) / 2\<rceil> = 2"
    by (rule ceiling_unique) simp_all
  from GET_pagination_for_positive_limit
    [OF h1 GET_second_page_of_two_status h3 h4 h5 h6 h7 h8]
  show ?thesis
    by (auto simp: second_page_of_two_values selected_alice_db c)
qed

lemma limit_zero_values:
  "limit_of limit_zero = Fin 0" "page_of limit_zero = Fin 1"
  "successful_of limit_zero = None" "filter_userId alice_user limit_zero = ''alice''"
  "map_of limit_zero ''userId'' = Some ''alice''"
  by (simp_all add: limit_of_def page_of_def successful_of_def filter_userId_def param_def
      limit_zero_def parseInt_def strip_sign_def strip_radix_def is_ws1_def is_ws2_def
      is_ws3_def is_digit_def digit_of_def digits_value_def to_double_numeral)

lemma limit_negative_values:
  "limit_of limit_negative = Fin (- 2)" "page_of limit_negative = Fin 1"
  "successful_of limit_negative = None" "filter_userId alice_user limit_negative = ''alice''"
  "map_of limit_negative ''userId'' = Some ''alice''"
  by (simp_all add: limit_of_def page_of_def successful_of_def filter_userId_def param_def
      limit_negative_def parseInt_def strip_sign_def strip_radix_def is_ws1_def is_ws2_def
      is_ws3_def is_digit_def digit_of_def digits_value_def to_double_numeral)

lemma alice_user_fields: "role alice_user = ''USER''" "user_id alice_user = ''alice''"
  by (simp_all add: alice_user_def)

text \<open>
  C10 as stated fails outside \<open>limit \<ge> 1\<close>. For \<open>limit=0\<close> the request succeeds with no
  records and \<open>Math.ceil(3 / 0)\<close> is \<open>Infinity\<close>, which the JSON response reports as \<open>null\<close>.
  For \<open>limit=-2\<close> it succeeds with two records, more than the limit.
\<close>

theorem GET_limit_zero_counterexample:
  "GET no_failures (Returns alice) limit_zero alice_db =
     (\<lparr>status = 200,
       body = QueriesBody []
         \<lparr>total = JNum 3, page = JNum 1, limit = JNum 0, totalPages = JNull\<rparr>\<rparr>,
      alice_db,
      [FindMany ''alice'' None (Fin 0) (Fin 0), Count ''alice'' None]) \<and>
   GET no_failures (Returns alice) limit_negative alice_db =
     (\<lparr>status = 200,
       body = QueriesBody [history_row 1, history_row 0]
         \<lparr>total = JNum 3, page = JNum 1, limit = JNum (- 2), totalPages = JNum (- 1)\<rparr>\<rparr>,
      alice_db,
      [FindMany ''alice'' None (Fin 0) (Fin (- 2)), Count ''alice'' None])"
proof -
  have c: "\<lceil>- (3 / 2 :: rat)\<rceil> = - 1"
    by (rule ceiling_unique) simp_all
  have zero: "GET no_failures (Returns alice) limit_zero alice_db =
     (\<lparr>status = 200,
       body = QueriesBody []
         \<lparr>total = JNum 3, page = JNum 1, limit = JNum 0, totalPages = JNull\<rparr>\<rparr>,
      alice_db,
      [FindMany ''alice'' None (Fin 0) (Fin 0), Count ''alice'' None])"
    by (simp add: GET_def alice_def session_user_def findMany_def count_def throws_def
        no_failures_def as_int_def alice_user_fields Let_def selected_alice_db window_def
        limit_zero_values inf_of_sign_def to_double_numeral js_of_nat_def)
  have negative: "GET no_failures (Returns alice) limit_negative alice_db =
     (\<lparr>status = 200,
       body = QueriesBody [history_row 1, history_row 0]
         \<lparr>total = JNum 3, page = JNum 1, limit = JNum (- 2), totalPages = JNum (- 1)\<rparr>\<rparr>,
      alice_db,
      [FindMany ''alice'' None (Fin 0) (Fin (- 2)), Count ''alice'' None])"
    by (simp add: GET_def alice_def session_user_def findMany_def count_def throws_def
        no_failures_def as_int_def alice_user_fields Let_def selected_alice_db window_def
        limit_negative_values inf_of_sign_def to_double_numeral js_of_nat_def three_halves c)
  show ?thesis
    using zero negative by simp
qed

text \<open>
  A limit too large for a double is \<open>Infinity\<close>; the skip is then \<open>0 * Infinity\<close>, NaN,
  the client refuses both, and the request is answered 500.
\<close>

lemma limit_huge_values:
  "limit_of limit_huge = PosInf" "page_of limit_huge = Fin 1"
  "successful_of limit_huge = None" "filter_userId alice_user limit_huge = ''alice''"
  "map_of limit_huge ''userId'' = Some ''alice''"
  by (simp_all add: limit_of_def page_of_def successful_of_def filter_userId_def param_def
      limit_huge_def parseInt_nines)

lemma GET_huge_limit:
  "GET no_failures (Returns alice) limit_huge alice_db =
     (\<lparr>status = 500, body = ErrorBody ''error fetching query history''\<rparr>, alice_db,
      [FindMany ''alice'' None NaN PosInf, Count ''alice'' None])"
  by (simp add: GET_def alice_def session_user_def findMany_def count_def throws_def
      no_failures_def as_int_def alice_user_fields Let_def limit_huge_values
      to_double_numeral error_response_def)

section \<open>Properties of the enrollment capture flow\<close>








section \<open>Properties of the voice engine\<close>

subsection \<open>The threshold decision\<close>

text \<open>
  C2, as amended. For every score \<open>s\<close> and threshold \<open>\<tau>\<close>, \<open>decide\<close> returns \<open>Accept\<close> if and
  only if \<open>s > \<tau>\<close> and \<open>Reject\<close> if and only if \<open>s \<le> \<tau>\<close>; a score equal to \<open>\<tau>\<close> is
  rejected (fail closed).
\<close>

theorem decide_accepts_above_threshold:
  "(decide s pol = Accept \<longleftrightarrow> threshold pol < s) \<and>
   (decide s pol = Reject \<longleftrightarrow> s \<le> threshold pol) \<and>
   decide (threshold pol) pol = Reject"
  by (auto simp: decide_def)

lemma tie_rule_contradicts_threshold_rule:
  "\<not> ((f s t = Accept \<longleftrightarrow> t \<le> s) \<and> s = (t :: real) \<and> f s t = Reject)"
  by auto

text \<open>
  C2 as stated asks for \<open>Accept\<close> exactly from \<open>\<tau>\<close> upwards and for \<open>Reject\<close> at \<open>\<tau>\<close>. No
  decision satisfies both at a score equal to the threshold; \<open>decide\<close> rejects there, so
  "\<open>Accept\<close> iff \<open>s \<ge> \<tau>\<close>" fails at \<open>s = \<tau> = 4/5\<close>.
\<close>

theorem decide_tie_counterexample:
  "threshold example_policy = 4 / 5 \<and> decide (4 / 5) example_policy = Reject \<and>
   \<not> (decide (4 / 5) example_policy = Accept \<longleftrightarrow> threshold example_policy \<le> 4 / 5)"
  by (simp add: decide_def example_policy_def)

text \<open>
  C5. For every score and every pair of thresholds \<open>\<tau>1 < \<tau>2\<close> (the rest of the policy
  being the same): an \<open>Accept\<close> under \<open>\<tau>2\<close> is an \<open>Accept\<close> under \<open>\<tau>1\<close>, and a \<open>Reject\<close> under
  \<open>\<tau>1\<close> is a \<open>Reject\<close> under \<open>\<tau>2\<close>.
\<close>

theorem decide_threshold_monotone:
  assumes "t1 < t2"
  shows "(decide s (pol\<lparr>threshold := t2\<rparr>) = Accept \<longrightarrow>
            decide s (pol\<lparr>threshold := t1\<rparr>) = Accept) \<and>
         (decide s (pol\<lparr>threshold := t1\<rparr>) = Reject \<longrightarrow>
            decide s (pol\<lparr>threshold := t2\<rparr>) = Reject)"
  using assms by (auto simp: decide_def)

theorem decide_threshold_monotone_witness:
  "(1 / 2 :: real) < 4 / 5 \<and>
   decide (9 / 10) (example_policy\<lparr>threshold := 4 / 5\<rparr>) = Accept \<and>
   decide (9 / 10) (example_policy\<lparr>threshold := 1 / 2\<rparr>) = Accept"
proof -
  have h: "(1 / 2 :: real) < 4 / 5"
    by simp
  have a: "decide (9 / 10) (example_policy\<lparr>threshold := 4 / 5\<rparr>) = Accept"
    by (simp add: decide_def)
  show ?thesis
    using decide_threshold_monotone [OF h, of "9 / 10" example_policy] h a by simp
qed

subsection \<open>Enrollment\<close>







subsection \<open>The verification state machine\<close>

lemma visited_Some:
  "step pol eng req c = Some c' \<Longrightarrow> visited pol eng req c = c # visited pol eng req c'"
  by (subst visited.simps) simp

lemma visited_None: "step pol eng req c = None \<Longrightarrow> visited pol eng req c = [c]"
  by (subst visited.simps) simp

lemma run_Some: "step pol eng req c = Some c' \<Longrightarrow> run pol eng req c = run pol eng req c'"
  by (subst run.simps) simp

lemma run_None: "step pol eng req c = None \<Longrightarrow> run pol eng req c = c"
  by (subst run.simps) simp

lemma visited_Decided:
  "visited pol eng req (Decided d r s, w) =
     [(Decided d r s, w), (Recorded, record_attempt req w d r s)]"
  by (simp add: visited_Some visited_None)

lemma run_Decided:
  "run pol eng req (Decided d r s, w) = (Recorded, record_attempt req w d r s)"
  by (simp add: run_Some run_None)

lemma matching_Decided: "\<exists>d r s. matching pol eng req w e = Decided d r s"
  by (auto simp: matching_def split: option.splits sum.splits)

lemma visited_shape:
  "visited pol eng req (Received, w) = [(Received, w)] \<and> \<not> acceptable eng req \<and>
     run pol eng req (Received, w) = (Received, w) \<or>
   acceptable eng req \<and>
   (\<exists>d r s mid.
      (mid = [] \<or> (\<exists>e. mid = [(Matching e, w)])) \<and>
      visited pol eng req (Received, w) =
        [(Received, w), (Extracting, w)] @ mid @
          [(Decided d r s, w), (Recorded, record_attempt req w d r s)] \<and>
      run pol eng req (Received, w) = (Recorded, record_attempt req w d r s))"
proof (cases "acceptable eng req")
  case False
  then have "step pol eng req (Received, w) = None"
    by (simp add: acceptable_def)
  then show ?thesis
    using False by (simp add: visited_None run_None)
next
  case True
  then have s0: "step pol eng req (Received, w) = Some (Extracting, w)"
    by (simp add: acceptable_def)
  show ?thesis
  proof (cases "extract_sample eng (sample req)")
    case (Inl x)
    then have "step pol eng req (Extracting, w) = Some (Decided Reject ExtractionFailed None, w)"
      by simp
    with s0 have "visited pol eng req (Received, w) =
        [(Received, w), (Extracting, w)] @ [] @
          [(Decided Reject ExtractionFailed None, w),
           (Recorded, record_attempt req w Reject ExtractionFailed None)]"
      "run pol eng req (Received, w) =
        (Recorded, record_attempt req w Reject ExtractionFailed None)"
      by (simp_all add: visited_Some visited_Decided run_Some run_Decided)
    with True show ?thesis
      by blast
  next
    case (Inr e)
    then have s1: "step pol eng req (Extracting, w) = Some (Matching e, w)"
      by simp
    obtain d r s where m: "matching pol eng req w e = Decided d r s"
      using matching_Decided by blast
    then have "step pol eng req (Matching e, w) = Some (Decided d r s, w)"
      by simp
    with s0 s1 have "visited pol eng req (Received, w) =
        [(Received, w), (Extracting, w)] @ [(Matching e, w)] @
          [(Decided d r s, w), (Recorded, record_attempt req w d r s)]"
      "run pol eng req (Received, w) = (Recorded, record_attempt req w d r s)"
      by (simp_all add: visited_Some visited_Decided run_Some run_Decided)
    with True show ?thesis
      by blast
  qed
qed


lemma visited_is_path: "visited pol eng req (Received, w) \<in> set (paths pol eng req w)"
  using visited_shape [of pol eng req w] by (auto simp: paths_def)





end
